theory Spec2Isabelle
  imports Main
begin

section \<open>Python values and the collaborators of kolibri_context.py\<close>

text \<open>
  The module \<^verbatim>\<open>kolibri_gnome/kolibri_context.py\<close> is glue between WebKit, libsoup, the
  Python standard library and the daemon manager. The functions of this module are
  translated below; the functions it calls in other modules are parameters, collected in
  the record \<open>env\<close>, so that every theorem holds whatever those functions compute.
  Strings are lists of 8-bit characters: the model speaks about ASCII URLs.
\<close>

datatype py_error = ValueError | KeyError | AttributeError

text \<open>The named tuple \<^verbatim>\<open>urllib.parse.SplitResult\<close>.\<close>

record SplitResult =
  scheme :: string
  netloc :: string
  path :: string
  query :: string
  fragment :: string

text \<open>A decoded JSON value, as \<^verbatim>\<open>kolibri_api_get\<close> returns it (\<open>JNone\<close> is Python's None).\<close>

datatype json =
    JNone
  | JBool bool
  | JInt int
  | JStr string
  | JList "json list"
  | JDict "(string \<times> json) list"

text \<open>
  \<open>urlsplit\<close>, \<open>parse_qs\<close> (called with \<^verbatim>\<open>keep_blank_values=True\<close>; the dict it returns is
  an association list in insertion order) and \<open>urlencode\<close> are the functions of
  \<^verbatim>\<open>urllib.parse\<close>; \<open>urlsplit\<close> raises ValueError on some malformed hosts.
  \<open>daemon_is_url_in_scope\<close> and \<open>kolibri_api_get\<close> are the methods
  \<^verbatim>\<open>is_url_in_scope\<close> and \<^verbatim>\<open>kolibri_api_get\<close> of KolibriDaemonManager.
\<close>

record env =
  urlsplit :: "string \<Rightarrow> py_error + SplitResult"
  parse_qs :: "string \<Rightarrow> (string \<times> string list) list"
  urlencode :: "(string \<times> string) list \<Rightarrow> string"
  daemon_is_url_in_scope :: "string \<Rightarrow> bool"
  kolibri_api_get :: "string \<Rightarrow> json"

section \<open>Session state: KolibriContext and its setup helper\<close>

definition SESSION_STATUS_ERROR :: int where "SESSION_STATUS_ERROR = 0"
definition SESSION_STATUS_STOPPED :: int where "SESSION_STATUS_STOPPED = 1"
definition SESSION_STATUS_SETUP :: int where "SESSION_STATUS_SETUP = 2"
definition SESSION_STATUS_READY :: int where "SESSION_STATUS_READY = 3"

text \<open>A \<^verbatim>\<open>Soup.Cookie\<close> is a boxed value: it hashes and compares by identity.\<close>

type_synonym cookie = nat

text \<open>
  What this module reads of a \<^verbatim>\<open>Soup.Message\<close>: \<^verbatim>\<open>get_status()\<close> and
  \<^verbatim>\<open>Soup.cookies_from_response\<close>.
\<close>

record soup_message =
  message_status :: nat
  response_cookies :: "cookie list"

text \<open>The outcome of a WebKit \<^verbatim>\<open>*_finish\<close> call: it returns, or raises \<^verbatim>\<open>GLib.Error\<close>.\<close>

datatype glib_result = Finished | GLib_Error string

datatype signal =
    Download_started
  | Open_external_url string
  | Kolibri_ready
  | Open_setup_wizard

datatype callback = On_kolibri_initialize_api_ready | On_kolibri_device_info_api_ready

text \<open>The asynchronous calls this module starts; their callbacks arrive later as events.\<close>

datatype request =
    Get_login_token
  | Kolibri_api_get_async string callback
  | Website_data_clear soup_message
  | Add_cookie cookie

text \<open>
  One record for the three objects that share the session: the two properties of
  KolibriDaemonManager read here (\<open>has_error\<close>, \<open>do_automatic_login\<close>), the properties and
  the private set of \_KolibriSetupHelper, and \<open>session_status\<close> of KolibriContext.
  \<open>cookies_to_add\<close> is None until the first assignment: \<^verbatim>\<open>__init__\<close> does not create the
  attribute. \<open>signals\<close>, \<open>logged\<close> and \<open>requests\<close> record, in order, the signals emitted, the
  messages passed to \<^verbatim>\<open>logger.error\<close> and the asynchronous calls started.
\<close>

record kolibri_state =
  has_error :: bool
  do_automatic_login :: bool
  auth_token :: "string option"
  is_auth_token_ready :: bool
  is_cookie_manager_ready :: bool
  is_kolibri_device_provisioned :: bool
  is_setup_available :: bool
  is_setup_complete :: bool
  cookies_to_add :: "cookie set option"
  session_status :: int
  signals :: "signal list"
  logged :: "string list"
  requests :: "request list"

text \<open>The property defaults and \<^verbatim>\<open>__init__\<close>, for a daemon manager with the given properties.\<close>

definition init_state :: "bool \<Rightarrow> bool \<Rightarrow> kolibri_state" where
  "init_state daemon_has_error daemon_do_automatic_login =
     \<lparr> has_error = daemon_has_error,
       do_automatic_login = daemon_do_automatic_login,
       auth_token = None,
       is_auth_token_ready = False,
       is_cookie_manager_ready = False,
       is_kolibri_device_provisioned = False,
       is_setup_available = False,
       is_setup_complete = False,
       cookies_to_add = None,
       session_status = SESSION_STATUS_STOPPED,
       signals = [],
       logged = [],
       requests = [] \<rparr>"

definition emit :: "signal \<Rightarrow> kolibri_state \<Rightarrow> kolibri_state" where
  "emit sig s = s\<lparr>signals := signals s @ [sig]\<rparr>"

definition logger_error :: "string \<Rightarrow> kolibri_state \<Rightarrow> kolibri_state" where
  "logger_error msg s = s\<lparr>logged := logged s @ [msg]\<rparr>"

definition start_request :: "request \<Rightarrow> kolibri_state \<Rightarrow> kolibri_state" where
  "start_request r s = s\<lparr>requests := requests s @ [r]\<rparr>"

subsection \<open>KolibriContext.\_\_update\_session\_status\<close>

definition update_session_status :: "bool \<Rightarrow> bool \<Rightarrow> bool \<Rightarrow> kolibri_state \<Rightarrow> kolibri_state" where
  "update_session_status has_error_v is_setup_available_v is_setup_complete_v s =
     (if has_error_v then s\<lparr>session_status := SESSION_STATUS_ERROR\<rparr>
      else if is_setup_complete_v then emit Kolibri_ready (s\<lparr>session_status := SESSION_STATUS_READY\<rparr>)
      else if is_setup_available_v then s\<lparr>session_status := SESSION_STATUS_SETUP\<rparr>
      else s\<lparr>session_status := SESSION_STATUS_STOPPED\<rparr>)"

text \<open>
  Modelled from the spec: \<^verbatim>\<open>map_properties\<close> of \<^verbatim>\<open>kolibri_gnome/utils.py\<close>, a module
  outside this one. The spec: the status is "recomputed whenever any input changes". An
  assignment to one of the watched properties calls the callback with the current values
  of all of them, in the order they were listed.
\<close>

definition notify_session_status_inputs :: "kolibri_state \<Rightarrow> kolibri_state" where
  "notify_session_status_inputs s =
     update_session_status (has_error s) (is_setup_available s) (is_setup_complete s) s"

definition set_has_error :: "bool \<Rightarrow> kolibri_state \<Rightarrow> kolibri_state" where
  "set_has_error v s = notify_session_status_inputs (s\<lparr>has_error := v\<rparr>)"

definition set_is_setup_available :: "bool \<Rightarrow> kolibri_state \<Rightarrow> kolibri_state" where
  "set_is_setup_available v s = notify_session_status_inputs (s\<lparr>is_setup_available := v\<rparr>)"

definition set_is_setup_complete :: "bool \<Rightarrow> kolibri_state \<Rightarrow> kolibri_state" where
  "set_is_setup_complete v s = notify_session_status_inputs (s\<lparr>is_setup_complete := v\<rparr>)"

subsection \<open>\_KolibriSetupHelper\<close>

text \<open>\<^verbatim>\<open>__update_is_setup_complete(*setup_flags)\<close>: Python's \<^verbatim>\<open>all\<close> of the flags.\<close>

definition update_is_setup_complete :: "bool list \<Rightarrow> kolibri_state \<Rightarrow> kolibri_state" where
  "update_is_setup_complete setup_flags s = set_is_setup_complete (list_all id setup_flags) s"

text \<open>Modelled from the spec: the second \<^verbatim>\<open>map_properties\<close> registration, as above.\<close>

definition notify_setup_flags :: "kolibri_state \<Rightarrow> kolibri_state" where
  "notify_setup_flags s =
     update_is_setup_complete [is_cookie_manager_ready s, is_kolibri_device_provisioned s] s"

definition set_is_cookie_manager_ready :: "bool \<Rightarrow> kolibri_state \<Rightarrow> kolibri_state" where
  "set_is_cookie_manager_ready v s = notify_setup_flags (s\<lparr>is_cookie_manager_ready := v\<rparr>)"

definition set_is_kolibri_device_provisioned :: "bool \<Rightarrow> kolibri_state \<Rightarrow> kolibri_state" where
  "set_is_kolibri_device_provisioned v s =
     notify_setup_flags (s\<lparr>is_kolibri_device_provisioned := v\<rparr>)"

text \<open>
  \<open>auth_token\<close> and \<open>is_auth_token_ready\<close> have no \<^verbatim>\<open>map_properties\<close> callback.
  \<^verbatim>\<open>await_properties\<close> (also of utils.py) watches \<open>is_auth_token_ready\<close> and calls
  \<open>initialize_kolibri_session\<close>; that call is an event of its own below.
\<close>

definition start_session_setup :: "kolibri_state \<Rightarrow> kolibri_state" where
  "start_session_setup s =
     (if \<not> do_automatic_login s then
        (let s1 = s\<lparr>auth_token := None\<rparr>;
             s2 = s1\<lparr>is_auth_token_ready := True\<rparr>;
             s3 = set_is_setup_available True s2
         in set_is_kolibri_device_provisioned True s3)
      else
        (let s1 = s\<lparr>auth_token := None\<rparr>;
             s2 = s1\<lparr>is_auth_token_ready := False\<rparr>;
             s3 = set_is_setup_available False s2;
             s4 = set_is_kolibri_device_provisioned False s3
         in start_request Get_login_token s4))"

definition kolibri_daemon_on_dbus_owner_changed :: "kolibri_state \<Rightarrow> kolibri_state" where
  "kolibri_daemon_on_dbus_owner_changed s =
     start_session_setup (set_is_cookie_manager_ready False s)"

definition kolibri_daemon_on_get_login_token_ready :: "string option \<Rightarrow> kolibri_state \<Rightarrow> kolibri_state" where
  "kolibri_daemon_on_get_login_token_ready login_token s =
     (s\<lparr>auth_token := login_token\<rparr>)\<lparr>is_auth_token_ready := True\<rparr>"

definition INITIALIZE_API_PATH :: string where
  "INITIALIZE_API_PATH = ''/app/api/initialize''"

definition initialize_kolibri_session :: "env \<Rightarrow> bool \<Rightarrow> string \<Rightarrow> bool \<Rightarrow> kolibri_state \<Rightarrow> kolibri_state" where
  "initialize_kolibri_session e is_started app_key is_auth_token_ready_v s =
     (let initialize_query =
            (case auth_token s of
               None \<Rightarrow> []
             | Some t \<Rightarrow> if t = [] then [] else [(''auth_token'', t)])
      in start_request
           (Kolibri_api_get_async
              (INITIALIZE_API_PATH @ ''/'' @ app_key @ ''?'' @ urlencode e initialize_query)
              On_kolibri_initialize_api_ready) s)"

definition check_is_kolibri_device_provisioned :: "kolibri_state \<Rightarrow> kolibri_state" where
  "check_is_kolibri_device_provisioned s =
     (if is_kolibri_device_provisioned s then s
      else start_request
             (Kolibri_api_get_async ''/api/device/deviceinfo/'' On_kolibri_device_info_api_ready) s)"

definition on_kolibri_initialize_api_ready :: "soup_message \<Rightarrow> kolibri_state \<Rightarrow> kolibri_state" where
  "on_kolibri_initialize_api_ready msg s =
     (let s1 = set_is_setup_available True s;
          s2 = check_is_kolibri_device_provisioned s1
      in start_request (Website_data_clear msg) s2)"

text \<open>\<^verbatim>\<open>Soup.Status.BAD_REQUEST\<close> is 400.\<close>

definition BAD_REQUEST :: nat where "BAD_REQUEST = 400"

definition on_kolibri_device_info_api_ready :: "soup_message \<Rightarrow> kolibri_state \<Rightarrow> kolibri_state" where
  "on_kolibri_device_info_api_ready msg s =
     (let s1 = set_is_kolibri_device_provisioned (message_status msg < BAD_REQUEST) s
      in if \<not> is_kolibri_device_provisioned s1 then emit Open_setup_wizard s1 else s1)"

definition copy_cookies_from_soup_message_response :: "soup_message \<Rightarrow> kolibri_state \<Rightarrow> kolibri_state" where
  "copy_cookies_from_soup_message_response msg s =
     (let cookies = response_cookies msg;
          s1 = s\<lparr>cookies_to_add := Some (set cookies)\<rparr>
      in fold (\<lambda>cookie. start_request (Add_cookie cookie)) cookies s1)"

definition on_website_data_clear_finished ::
  "glib_result \<Rightarrow> (kolibri_state \<Rightarrow> kolibri_state) \<Rightarrow> kolibri_state \<Rightarrow> kolibri_state" where
  "on_website_data_clear_finished result next_fn s =
     (case result of
        GLib_Error err \<Rightarrow> logger_error (''Error clearing cookies: '' @ err) s
      | Finished \<Rightarrow> next_fn s)"

text \<open>
  \<^verbatim>\<open>set.remove\<close> raises KeyError for a cookie that is not in the set, and the attribute
  read raises AttributeError while the set was never assigned.
\<close>

definition on_webkit_add_cookie_ready :: "glib_result \<Rightarrow> cookie \<Rightarrow> kolibri_state \<Rightarrow> py_error + kolibri_state" where
  "on_webkit_add_cookie_ready result cookie s =
     (case result of
        GLib_Error err \<Rightarrow> Inr (logger_error (''Error adding cookie from API response: '' @ err) s)
      | Finished \<Rightarrow>
          (case cookies_to_add s of
             None \<Rightarrow> Inl AttributeError
           | Some pending \<Rightarrow>
               if cookie \<notin> pending then Inl KeyError
               else
                 (let s1 = s\<lparr>cookies_to_add := Some (pending - {cookie})\<rparr>
                  in if pending - {cookie} = {} then Inr (set_is_cookie_manager_ready True s1)
                     else Inr s1)))"

subsection \<open>The event loop\<close>

text \<open>
  Everything that happens to the session is one of these calls, made by the GLib main
  loop or by the application. An exception that leaves a callback is reported by
  PyGObject and the loop goes on with the state as the callback left it.
\<close>

datatype event =
    Start_session_setup
  | Dbus_owner_changed
  | Daemon_has_error bool
  | Get_login_token_ready "string option"
  | Initialize_kolibri_session bool string bool
  | Kolibri_initialize_api_ready soup_message
  | Kolibri_device_info_api_ready soup_message
  | Website_data_clear_finished glib_result soup_message
  | Webkit_add_cookie_ready glib_result cookie

definition after_callback :: "kolibri_state \<Rightarrow> py_error + kolibri_state \<Rightarrow> kolibri_state" where
  "after_callback s r = (case r of Inl err \<Rightarrow> s | Inr s' \<Rightarrow> s')"

fun dispatch :: "env \<Rightarrow> event \<Rightarrow> kolibri_state \<Rightarrow> kolibri_state" where
  "dispatch e Start_session_setup s = start_session_setup s"
| "dispatch e Dbus_owner_changed s = kolibri_daemon_on_dbus_owner_changed s"
| "dispatch e (Daemon_has_error v) s = set_has_error v s"
| "dispatch e (Get_login_token_ready login_token) s =
     kolibri_daemon_on_get_login_token_ready login_token s"
| "dispatch e (Initialize_kolibri_session is_started app_key ready) s =
     initialize_kolibri_session e is_started app_key ready s"
| "dispatch e (Kolibri_initialize_api_ready msg) s = on_kolibri_initialize_api_ready msg s"
| "dispatch e (Kolibri_device_info_api_ready msg) s = on_kolibri_device_info_api_ready msg s"
| "dispatch e (Website_data_clear_finished result msg) s =
     on_website_data_clear_finished result (copy_cookies_from_soup_message_response msg) s"
| "dispatch e (Webkit_add_cookie_ready result cookie) s =
     after_callback s (on_webkit_add_cookie_ready result cookie s)"

definition run_events :: "env \<Rightarrow> event list \<Rightarrow> kolibri_state \<Rightarrow> kolibri_state" where
  "run_events e evs s = fold (dispatch e) evs s"

section \<open>Regular expressions as \<^verbatim>\<open>re.match\<close> runs them\<close>

text \<open>
  The constructs the five patterns of this module use. \<open>Cls P\<close> is one character of a
  class, \<open>Plus_cls P\<close> is a class under the greedy \<^verbatim>\<open>+\<close>, \<open>Opt\<close> the greedy \<^verbatim>\<open>?\<close>, \<open>Group\<close>
  a named group. Parentheses without a name only group, since no caller reads them.
\<close>

datatype rexp =
    Lit string
  | Cls "char \<Rightarrow> bool"
  | Plus_cls "char \<Rightarrow> bool"
  | Seq rexp rexp
  | Alt rexp rexp
  | Opt rexp
  | Group string rexp

text \<open>The inputs left after zero or more characters of the class, the longest run first.\<close>

fun star_rests :: "(char \<Rightarrow> bool) \<Rightarrow> string \<Rightarrow> string list" where
  "star_rests P [] = [[]]"
| "star_rests P (c # cs) = (if P c then star_rests P cs @ [c # cs] else [c # cs])"

text \<open>
  \<open>run r s g\<close> lists every way \<open>r\<close> matches at the start of \<open>s\<close>, in the order a
  backtracking matcher tries them: the input left and the groups captured, \<open>g\<close> being
  the groups captured before.
\<close>

fun run :: "rexp \<Rightarrow> string \<Rightarrow> (string \<times> string) list \<Rightarrow> (string \<times> (string \<times> string) list) list" where
  "run (Lit l) s g = (if take (length l) s = l then [(drop (length l) s, g)] else [])"
| "run (Cls P) s g = (case s of [] \<Rightarrow> [] | c # cs \<Rightarrow> if P c then [(cs, g)] else [])"
| "run (Plus_cls P) s g =
     (case s of [] \<Rightarrow> [] | c # cs \<Rightarrow> if P c then map (\<lambda>r. (r, g)) (star_rests P cs) else [])"
| "run (Seq a b) s g = concat (map (\<lambda>(s', g'). run b s' g') (run a s g))"
| "run (Alt a b) s g = run a s g @ run b s g"
| "run (Opt a) s g = run a s g @ [(s, g)]"
| "run (Group n a) s g =
     map (\<lambda>(s', g'). (s', (n, take (length s - length s') s) # g')) (run a s g)"

text \<open>The inputs a pattern can leave, the groups forgotten.\<close>

definition rests :: "rexp \<Rightarrow> string \<Rightarrow> string set" where
  "rests r s = fst ` set (run r s [])"

text \<open>\<^verbatim>\<open>re.match\<close>: the first way found, as the groups of the match object, or None.\<close>

definition re_match :: "rexp \<Rightarrow> string \<Rightarrow> (string \<times> string) list option" where
  "re_match r s = (case run r s [] of [] \<Rightarrow> None | m # _ \<Rightarrow> Some (snd m))"

definition match_group :: "(string \<times> string) list \<Rightarrow> string \<Rightarrow> string option" where
  "match_group m name = map_of m name"

text \<open>
  The class \<^verbatim>\<open>\w\<close> on ASCII characters, and the class \<^verbatim>\<open>[\w\-]\<close>. On a Python \<^verbatim>\<open>str\<close>
  the class \<^verbatim>\<open>\w\<close> holds the alphanumerics outside ASCII too, so the patterns below are
  those of \<^verbatim>\<open>re.match\<close> on ASCII strings, the strings \<open>is_ascii\<close> accepts; a statement
  about a pattern with a class assumes its input is one.
\<close>

definition is_ascii :: "string \<Rightarrow> bool" where
  "is_ascii s = list_all (\<lambda>c. of_char c < (128 :: nat)) s"

definition word_char :: "char \<Rightarrow> bool" where
  "word_char c =
     (c \<in> set ''abcdefghijklmnopqrstuvwxyzABCDEFGHIJKLMNOPQRSTUVWXYZ0123456789_'')"

definition word_or_dash :: "char \<Rightarrow> bool" where
  "word_or_dash c = (word_char c \<or> c = CHR ''-'')"

fun alternatives :: "string list \<Rightarrow> rexp" where
  "alternatives [] = Lit []"
| "alternatives [l] = Lit l"
| "alternatives (l # ls) = Alt (Lit l) (alternatives ls)"

text \<open>
  \<^verbatim>\<open>STATIC_PATHS_RE = r"^(app|static|downloadcontent|content\/storage|content\/static|content\/zipcontent)\/?"\<close>
\<close>

definition STATIC_PATHS_RE :: rexp where
  "STATIC_PATHS_RE =
     Seq (alternatives [''app'', ''static'', ''downloadcontent'', ''content/storage'',
                        ''content/static'', ''content/zipcontent''])
         (Opt (Lit ''/''))"

text \<open>
  \<^verbatim>\<open>SYSTEM_PATHS_RE = r"^(?P<lang>[\w\-]+\/)?(user|logout|redirectuser|learn\/app)\/?"\<close>
\<close>

definition SYSTEM_PATHS_RE :: rexp where
  "SYSTEM_PATHS_RE =
     Seq (Opt (Group ''lang'' (Seq (Plus_cls word_or_dash) (Lit ''/''))))
         (Seq (alternatives [''user'', ''logout'', ''redirectuser'', ''learn/app''])
              (Opt (Lit ''/'')))"

text \<open>\<^verbatim>\<open>CONTENT_PATHS_RE = r"^(?P<lang>[\w\-]+\/)?learn\/?"\<close>\<close>

definition CONTENT_PATHS_RE :: rexp where
  "CONTENT_PATHS_RE =
     Seq (Opt (Group ''lang'' (Seq (Plus_cls word_or_dash) (Lit ''/''))))
         (Seq (Lit ''learn'') (Opt (Lit ''/'')))"

text \<open>\<^verbatim>\<open>r"^(content-unavailable|search)"\<close>, in \<^verbatim>\<open>__is_learn_fragment_in_channel\<close>.\<close>

definition UNSCOPED_FRAGMENT_RE :: rexp where
  "UNSCOPED_FRAGMENT_RE = alternatives [''content-unavailable'', ''search'']"

text \<open>
  \<^verbatim>\<open>r"^topics\/([ct]\/)?(?P<node_id>\w+)"\<close>, in \<^verbatim>\<open>__contentnode_id_for_learn_fragment\<close>.
\<close>

definition NODE_ID_RE :: rexp where
  "NODE_ID_RE =
     Seq (Lit ''topics/'')
         (Seq (Opt (Seq (Cls (\<lambda>c. c \<in> set ''ct'')) (Lit ''/'')))
              (Group ''node_id'' (Plus_cls word_char)))"

section \<open>URL translation and scope\<close>

definition LEARN_PATH_PREFIX :: string where
  "LEARN_PATH_PREFIX = ''/learn/#/''"

text \<open>
  Modelled from the spec: the two scheme constants of \<^verbatim>\<open>kolibri_app.config\<close>, a module
  outside this one. The spec: "Custom URL scheme \<^verbatim>\<open>kolibri:\<close>" and "Internal scheme
  \<^verbatim>\<open>x-kolibri-app:\<close>".
\<close>

definition KOLIBRI_URI_SCHEME :: string where
  "KOLIBRI_URI_SCHEME = ''kolibri''"

definition APP_URI_SCHEME :: string where
  "APP_URI_SCHEME = ''x-kolibri-app''"

text \<open>The string methods used: \<^verbatim>\<open>lstrip\<close>, \<^verbatim>\<open>partition\<close>, \<^verbatim>\<open>join\<close>, \<^verbatim>\<open>startswith\<close>.\<close>

definition lstrip :: "char \<Rightarrow> string \<Rightarrow> string" where
  "lstrip ch s = dropWhile (\<lambda>c. c = ch) s"

definition str_partition :: "char \<Rightarrow> string \<Rightarrow> string \<times> string \<times> string" where
  "str_partition sep s =
     (case dropWhile (\<lambda>c. c \<noteq> sep) s of
        [] \<Rightarrow> (s, [], [])
      | c # after \<Rightarrow> (takeWhile (\<lambda>c. c \<noteq> sep) s, [sep], after))"

fun str_join :: "string \<Rightarrow> string list \<Rightarrow> string" where
  "str_join sep [] = []"
| "str_join sep [x] = x"
| "str_join sep (x # xs) = x @ sep @ str_join sep xs"

definition startswith :: "string \<Rightarrow> string \<Rightarrow> bool" where
  "startswith s pre = (take (length pre) s = pre)"

text \<open>\<^verbatim>\<open>d.get(key, default)\<close> on a dict kept as an association list.\<close>

definition dict_get :: "('k \<times> 'v) list \<Rightarrow> 'k \<Rightarrow> 'v \<Rightarrow> 'v" where
  "dict_get d k dflt = (case map_of d k of None \<Rightarrow> dflt | Some v \<Rightarrow> v)"

text \<open>
  The class of the context object. BaseKolibriContext is abstract (its properties raise
  NotImplementedError); the application creates one of its two subclasses, the second
  with its channel id.
\<close>

datatype kolibri_context = KolibriContext | KolibriChannelContext string

definition default_path :: "string \<Rightarrow> string" where
  "default_path channel_id = LEARN_PATH_PREFIX @ ''topics/t/'' @ channel_id"

fun default_url :: "kolibri_context \<Rightarrow> string" where
  "default_url KolibriContext = APP_URI_SCHEME @ '':/''"
| "default_url (KolibriChannelContext channel_id) = APP_URI_SCHEME @ '':'' @ default_path channel_id"

text \<open>
  \<open>search\<close> is an \<^verbatim>\<open>Optional[str]\<close>; \<^verbatim>\<open>if search:\<close> holds for a string that is not empty.
\<close>

fun truthy :: "string option \<Rightarrow> bool" where
  "truthy None = False"
| "truthy (Some s) = (s \<noteq> [])"

definition get_kolibri_content_path :: "env \<Rightarrow> string \<Rightarrow> string option \<Rightarrow> string" where
  "get_kolibri_content_path e node_id search =
     (if truthy search then
        (let query = [(''keywords'', the search), (''last'', ''TOPICS_TOPIC_SEARCH'')]
         in LEARN_PATH_PREFIX @ ''topics/c/'' @ node_id @ ''?'' @ urlencode e query)
      else LEARN_PATH_PREFIX @ ''topics/c/'' @ node_id)"

definition get_kolibri_topic_path :: "env \<Rightarrow> string \<Rightarrow> string option \<Rightarrow> string" where
  "get_kolibri_topic_path e node_id search =
     (if truthy search then
        (let query = [(''keywords'', the search)]
         in LEARN_PATH_PREFIX @ ''topics/t/'' @ node_id @ ''/search?'' @ urlencode e query)
      else LEARN_PATH_PREFIX @ ''topics/t/'' @ node_id)"

fun get_kolibri_library_path :: "env \<Rightarrow> kolibri_context \<Rightarrow> string option \<Rightarrow> string" where
  "get_kolibri_library_path e KolibriContext search =
     (if truthy search then
        (let query = [(''keywords'', the search)]
         in LEARN_PATH_PREFIX @ ''library?'' @ urlencode e query)
      else LEARN_PATH_PREFIX @ ''home'')"
| "get_kolibri_library_path e (KolibriChannelContext channel_id) search =
     (if truthy search then
        (let query = [(''keywords'', the search)]
         in default_path channel_id @ ''/search?'' @ urlencode e query)
      else default_path channel_id)"

definition parse_kolibri_url_tuple :: "env \<Rightarrow> kolibri_context \<Rightarrow> SplitResult \<Rightarrow> string" where
  "parse_kolibri_url_tuple e ctx url_tuple =
     (let url_path = lstrip CHR ''/'' (path url_tuple);
          url_query = parse_qs e (query url_tuple);
          url_search = str_join '' '' (dict_get url_query ''search'' []);
          (node_type, sep, node_id) = str_partition CHR ''/'' url_path
      in if node_type = ''c'' then get_kolibri_content_path e node_id (Some url_search)
         else if node_type = ''t'' then get_kolibri_topic_path e node_id None
         else get_kolibri_library_path e ctx (Some url_search))"

definition is_url_for_kolibri_app :: "env \<Rightarrow> string \<Rightarrow> py_error + bool" where
  "is_url_for_kolibri_app e url =
     (if \<not> daemon_is_url_in_scope e url then Inr False
      else
        (case urlsplit e url of
           Inl err \<Rightarrow> Inl err
         | Inr url_tuple \<Rightarrow>
             (let url_path = lstrip CHR ''/'' (path url_tuple)
              in Inr (\<not> (startswith url_path ''static/'' \<or>
                         startswith url_path ''content/storage/'')))))"

definition contentnode_id_for_learn_fragment :: "string \<Rightarrow> string option" where
  "contentnode_id_for_learn_fragment fragment_v =
     (case re_match NODE_ID_RE fragment_v of
        Some m \<Rightarrow> match_group m ''node_id''
      | None \<Rightarrow> None)"

definition is_learn_fragment_in_channel :: "env \<Rightarrow> string \<Rightarrow> string \<Rightarrow> bool" where
  "is_learn_fragment_in_channel e channel_id fragment_v =
     (let fragment1 = lstrip CHR ''/'' fragment_v
      in if re_match UNSCOPED_FRAGMENT_RE fragment1 \<noteq> None then True
         else
           (case contentnode_id_for_learn_fragment fragment1 of
              None \<Rightarrow> False
            | Some contentnode_id \<Rightarrow>
                if contentnode_id = channel_id then True
                else
                  (case kolibri_api_get e (''/api/content/contentnode/'' @ contentnode_id) of
                     JDict response \<Rightarrow>
                       (let contentnode_channel = map_of response ''channel_id''
                        in contentnode_channel = Some (JStr channel_id))
                   | _ \<Rightarrow> False)))"

fun is_url_in_scope :: "env \<Rightarrow> kolibri_context \<Rightarrow> string \<Rightarrow> py_error + bool" where
  "is_url_in_scope e KolibriContext url = is_url_for_kolibri_app e url"
| "is_url_in_scope e (KolibriChannelContext channel_id) url =
     (case is_url_for_kolibri_app e url of
        Inl err \<Rightarrow> Inl err
      | Inr for_app \<Rightarrow>
          if \<not> for_app then Inr False
          else
            (case urlsplit e url of
               Inl err \<Rightarrow> Inl err
             | Inr url_tuple \<Rightarrow>
                 (let url_path = lstrip CHR ''/'' (path url_tuple)
                  in if re_match STATIC_PATHS_RE url_path \<noteq> None then Inr True
                     else if re_match SYSTEM_PATHS_RE url_path \<noteq> None then Inr True
                     else if re_match CONTENT_PATHS_RE url_path \<noteq> None then
                       Inr (is_learn_fragment_in_channel e channel_id (fragment url_tuple))
                     else Inr False)))"

definition should_open_url :: "env \<Rightarrow> kolibri_context \<Rightarrow> string \<Rightarrow> py_error + bool" where
  "should_open_url e ctx url =
     (if url = default_url ctx then Inr True
      else
        (case urlsplit e url of
           Inl err \<Rightarrow> Inl err
         | Inr url_tuple \<Rightarrow>
             if scheme url_tuple \<in> set [KOLIBRI_URI_SCHEME, APP_URI_SCHEME, ''about'', ''blob'']
             then Inr True
             else is_url_in_scope e ctx url))"

subsection \<open>The scope of a channel as the specification words it\<close>

text \<open>
  The channel a content node resolves to: the configured channel itself when the node id
  is the channel id (no lookup), and otherwise the \<^verbatim>\<open>channel_id\<close> of the answer of the
  content API, when there is one.
\<close>

definition resolved_channel :: "env \<Rightarrow> string \<Rightarrow> string \<Rightarrow> string option" where
  "resolved_channel e channel_id contentnode_id =
     (if contentnode_id = channel_id then Some channel_id
      else
        (case kolibri_api_get e (''/api/content/contentnode/'' @ contentnode_id) of
           JDict response \<Rightarrow>
             (case map_of response ''channel_id'' of
                Some (JStr c) \<Rightarrow> Some c
              | _ \<Rightarrow> None)
         | _ \<Rightarrow> None))"

definition node_in_channel :: "env \<Rightarrow> string \<Rightarrow> string \<Rightarrow> bool" where
  "node_in_channel e channel_id fragment_v =
     (case contentnode_id_for_learn_fragment (lstrip CHR ''/'' fragment_v) of
        None \<Rightarrow> False
      | Some contentnode_id \<Rightarrow> resolved_channel e channel_id contentnode_id = Some channel_id)"

text \<open>
  The specification's sentence, word for word: a URL is in scope if its path matches one
  of the three patterns and, for learn pages, the content node of the fragment belongs to
  the configured channel.
\<close>

definition spec_in_scope :: "env \<Rightarrow> string \<Rightarrow> SplitResult \<Rightarrow> bool" where
  "spec_in_scope e channel_id url_tuple =
     (let url_path = lstrip CHR ''/'' (path url_tuple)
      in re_match STATIC_PATHS_RE url_path \<noteq> None \<or>
         re_match SYSTEM_PATHS_RE url_path \<noteq> None \<or>
         (re_match CONTENT_PATHS_RE url_path \<noteq> None \<and>
          node_in_channel e channel_id (fragment url_tuple)))"

subsection \<open>Predicates on the session state\<close>

definition setup_flags_agree :: "kolibri_state \<Rightarrow> bool" where
  "setup_flags_agree s =
     (is_setup_complete s = (is_cookie_manager_ready s \<and> is_kolibri_device_provisioned s))"

definition session_status_agrees :: "kolibri_state \<Rightarrow> bool" where
  "session_status_agrees s =
     (session_status s =
        (if has_error s then SESSION_STATUS_ERROR
         else if is_setup_complete s then SESSION_STATUS_READY
         else if is_setup_available s then SESSION_STATUS_SETUP
         else SESSION_STATUS_STOPPED))"

text \<open>The callbacks of \<^verbatim>\<open>add_cookie\<close>, as events, and the cookies whose callback reported success.\<close>

definition add_cookie_callbacks :: "(glib_result \<times> cookie) list \<Rightarrow> event list" where
  "add_cookie_callbacks cbs = map (\<lambda>(result, cookie). Webkit_add_cookie_ready result cookie) cbs"

definition added_cookies :: "(glib_result \<times> cookie) list \<Rightarrow> cookie set" where
  "added_cookies cbs = {cookie. (Finished, cookie) \<in> set cbs}"

section \<open>The standard library on ASCII strings\<close>

text \<open>
  Executable models of \<^verbatim>\<open>urlsplit\<close>, \<^verbatim>\<open>parse_qs\<close> and \<^verbatim>\<open>urlencode\<close> as CPython 3.12
  computes them on ASCII strings. They instantiate \<open>env\<close> where a theorem is run on a
  concrete URL; no theorem about the module depends on them otherwise. Of the host
  checks of \<^verbatim>\<open>urlsplit\<close> only the balance of brackets is modelled.
\<close>

definition split_once :: "char \<Rightarrow> string \<Rightarrow> string \<times> string" where
  "split_once sep s =
     (takeWhile (\<lambda>c. c \<noteq> sep) s, drop 1 (dropWhile (\<lambda>c. c \<noteq> sep) s))"

definition ascii_lower :: "char \<Rightarrow> char" where
  "ascii_lower c =
     dict_get (zip ''ABCDEFGHIJKLMNOPQRSTUVWXYZ'' ''abcdefghijklmnopqrstuvwxyz'') c c"

definition scheme_char :: "char \<Rightarrow> bool" where
  "scheme_char c =
     (c \<in> set ''abcdefghijklmnopqrstuvwxyzABCDEFGHIJKLMNOPQRSTUVWXYZ0123456789+-.'')"

definition ascii_alpha :: "char \<Rightarrow> bool" where
  "ascii_alpha c = (c \<in> set ''abcdefghijklmnopqrstuvwxyzABCDEFGHIJKLMNOPQRSTUVWXYZ'')"

definition py_urlsplit :: "string \<Rightarrow> py_error + SplitResult" where
  "py_urlsplit url0 =
     (let url1 = dropWhile (\<lambda>c. of_char c \<le> (32 :: nat)) url0;
          url2 = filter (\<lambda>c. c \<notin> set [CHR 0x09, CHR 0x0D, CHR 0x0A]) url1;
          before_colon = takeWhile (\<lambda>c. c \<noteq> CHR '':'') url2;
          has_scheme = (CHR '':'' \<in> set url2 \<and> before_colon \<noteq> [] \<and>
                        ascii_alpha (hd url2) \<and> list_all scheme_char before_colon);
          scheme_v = (if has_scheme then map ascii_lower before_colon else []);
          url3 = (if has_scheme then drop (Suc (length before_colon)) url2 else url2);
          has_netloc = (take 2 url3 = ''//'');
          netloc_v = (if has_netloc
                      then takeWhile (\<lambda>c. c \<notin> set ''/?#'') (drop 2 url3) else []);
          url4 = (if has_netloc
                  then dropWhile (\<lambda>c. c \<notin> set ''/?#'') (drop 2 url3) else url3);
          (url5, fragment_v) = split_once CHR ''#'' url4;
          (url6, query_v) = split_once CHR ''?'' url5
      in if (CHR ''['' \<in> set netloc_v) \<noteq> (CHR '']'' \<in> set netloc_v) then Inl ValueError
         else Inr \<lparr> scheme = scheme_v, netloc = netloc_v, path = url6,
                    query = query_v, fragment = fragment_v \<rparr>)"

fun split_all :: "char \<Rightarrow> string \<Rightarrow> string \<Rightarrow> string list" where
  "split_all sep acc [] = [rev acc]"
| "split_all sep acc (c # cs) =
     (if c = sep then rev acc # split_all sep [] cs else split_all sep (c # acc) cs)"

definition hex_value :: "char \<Rightarrow> nat option" where
  "hex_value c =
     map_of (zip ''0123456789abcdefABCDEF''
                 [0, 1, 2, 3, 4, 5, 6, 7, 8, 9, 10, 11, 12, 13, 14, 15, 10, 11, 12, 13, 14, 15]) c"

fun unquote :: "string \<Rightarrow> string" where
  "unquote (c # h # l # cs) =
     (if c = CHR ''%'' then
        (case (hex_value h, hex_value l) of
           (Some a, Some b) \<Rightarrow> char_of (16 * a + b) # unquote cs
         | _ \<Rightarrow> c # unquote (h # l # cs))
      else c # unquote (h # l # cs))"
| "unquote cs = cs"

definition unquote_plus :: "string \<Rightarrow> string" where
  "unquote_plus s = unquote (map (\<lambda>c. if c = CHR ''+'' then CHR '' '' else c) s)"

fun add_value :: "string \<Rightarrow> string \<Rightarrow> (string \<times> string list) list \<Rightarrow> (string \<times> string list) list" where
  "add_value k v [] = [(k, [v])]"
| "add_value k v ((k', vs) # d) =
     (if k = k' then (k', vs @ [v]) # d else (k', vs) # add_value k v d)"

definition py_parse_qs :: "string \<Rightarrow> (string \<times> string list) list" where
  "py_parse_qs qs =
     fold (\<lambda>name_value d.
             if name_value = [] then d
             else (let (name, value) = split_once CHR ''='' name_value
                   in add_value (unquote_plus name) (unquote_plus value) d))
          (split_all CHR ''&'' [] qs) []"

definition quote_plus :: "string \<Rightarrow> string" where
  "quote_plus s =
     concat (map (\<lambda>c.
        if c \<in> set ''abcdefghijklmnopqrstuvwxyzABCDEFGHIJKLMNOPQRSTUVWXYZ0123456789_.-~''
        then [c]
        else if c = CHR '' '' then ''+''
        else [CHR ''%'', ''0123456789ABCDEF'' ! (of_char c div 16),
              ''0123456789ABCDEF'' ! (of_char c mod 16)]) s)"

definition py_urlencode :: "(string \<times> string) list \<Rightarrow> string" where
  "py_urlencode query_v =
     str_join ''&'' (map (\<lambda>(k, v). quote_plus k @ ''='' @ quote_plus v) query_v)"

text \<open>
  A daemon that serves the given base URL and answers the content API from a table of
  node ids and their channels.
\<close>

definition py_env :: "string \<Rightarrow> (string \<times> string) list \<Rightarrow> env" where
  "py_env base_url nodes =
     \<lparr> urlsplit = py_urlsplit,
       parse_qs = py_parse_qs,
       urlencode = py_urlencode,
       daemon_is_url_in_scope = (\<lambda>url. startswith url base_url),
       kolibri_api_get =
         (\<lambda>api_path.
            case map_of (map (\<lambda>(node, channel). (''/api/content/contentnode/'' @ node, channel))
                             nodes) api_path of
              None \<Rightarrow> JNone
            | Some channel \<Rightarrow> JDict [(''channel_id'', JStr channel)]) \<rparr>"

section \<open>A sample session\<close>

text \<open>
  A daemon at \<^verbatim>\<open>http://localhost:8080/\<close> with two channels, and a session with automatic
  login that runs the whole setup: the login token arrives, the initialize call answers
  with two cookies, the device is provisioned, the cookie jar is cleared and both cookies
  are added again.
\<close>

definition sample_env :: env where
  "sample_env =
     py_env ''http://localhost:8080/''
       [(''aaa111'', ''c0ffee''), (''bbb222'', ''0ddba11'')]"

definition sample_response :: soup_message where
  "sample_response = \<lparr>message_status = 200, response_cookies = [1, 2]\<rparr>"

definition sample_setup :: "event list" where
  "sample_setup =
     [Start_session_setup,
      Get_login_token_ready (Some ''token''),
      Initialize_kolibri_session True ''key'' True,
      Kolibri_initialize_api_ready sample_response,
      Kolibri_device_info_api_ready \<lparr>message_status = 200, response_cookies = []\<rparr>,
      Website_data_clear_finished Finished sample_response,
      Webkit_add_cookie_ready Finished 2,
      Webkit_add_cookie_ready Finished 1]"

definition sample_ready_state :: kolibri_state where
  "sample_ready_state = run_events sample_env sample_setup (init_state False True)"

text \<open>The same session before the two cookies are added: the jar is cleared, both pending.\<close>

definition sample_repopulating_state :: kolibri_state where
  "sample_repopulating_state =
     run_events sample_env (take 6 sample_setup) (init_state False True)"

section \<open>Properties of the session state\<close>

lemmas status_values = SESSION_STATUS_ERROR_def SESSION_STATUS_STOPPED_def
  SESSION_STATUS_SETUP_def SESSION_STATUS_READY_def

lemmas property_setters = update_session_status_def notify_session_status_inputs_def
  set_has_error_def set_is_setup_available_def set_is_setup_complete_def
  update_is_setup_complete_def notify_setup_flags_def set_is_cookie_manager_ready_def
  set_is_kolibri_device_provisioned_def emit_def logger_error_def start_request_def

subsection \<open>The status follows the flags\<close>

lemma status_after_setter:
  "session_status_agrees (set_has_error v s)"
  "session_status_agrees (set_is_setup_available v s)"
  "session_status_agrees (set_is_setup_complete v s)"
  "session_status_agrees (set_is_cookie_manager_ready v s)"
  "session_status_agrees (set_is_kolibri_device_provisioned v s)"
  by (auto simp add: session_status_agrees_def property_setters)

lemma status_kept:
  "session_status_agrees s \<Longrightarrow> session_status_agrees (start_request r s)"
  "session_status_agrees s \<Longrightarrow> session_status_agrees (logger_error msg s)"
  "session_status_agrees s \<Longrightarrow> session_status_agrees (emit sig s)"
  "session_status_agrees s \<Longrightarrow> session_status_agrees (s\<lparr>auth_token := t\<rparr>)"
  "session_status_agrees s \<Longrightarrow> session_status_agrees (s\<lparr>is_auth_token_ready := b\<rparr>)"
  "session_status_agrees s \<Longrightarrow> session_status_agrees (s\<lparr>cookies_to_add := p\<rparr>)"
  by (simp_all add: session_status_agrees_def start_request_def logger_error_def emit_def)

lemma status_kept_fold_start_request:
  "session_status_agrees s \<Longrightarrow> session_status_agrees (fold (\<lambda>c. start_request (f c)) cs s)"
  by (induction cs arbitrary: s) (simp_all add: status_kept)

lemma status_dispatch:
  assumes "session_status_agrees s"
  shows "session_status_agrees (dispatch e ev s)"
proof (cases ev)
  case Start_session_setup
  then show ?thesis
    by (simp add: start_session_setup_def Let_def status_after_setter status_kept)
next
  case Dbus_owner_changed
  then show ?thesis
    by (simp add: kolibri_daemon_on_dbus_owner_changed_def start_session_setup_def Let_def
        status_after_setter status_kept)
next
  case (Daemon_has_error v)
  then show ?thesis by (simp add: status_after_setter)
next
  case (Get_login_token_ready token)
  with assms show ?thesis
    by (simp add: kolibri_daemon_on_get_login_token_ready_def status_kept)
next
  case (Initialize_kolibri_session started key ready)
  with assms show ?thesis
    by (simp add: initialize_kolibri_session_def status_kept)
next
  case (Kolibri_initialize_api_ready msg)
  then show ?thesis
    by (simp add: on_kolibri_initialize_api_ready_def check_is_kolibri_device_provisioned_def
        Let_def status_after_setter status_kept)
next
  case (Kolibri_device_info_api_ready msg)
  then show ?thesis
    by (simp add: on_kolibri_device_info_api_ready_def Let_def status_after_setter status_kept)
next
  case (Website_data_clear_finished result msg)
  with assms show ?thesis
    by (simp add: on_website_data_clear_finished_def copy_cookies_from_soup_message_response_def
        Let_def status_kept status_kept_fold_start_request split: glib_result.splits)
next
  case (Webkit_add_cookie_ready result cookie)
  with assms show ?thesis
    by (simp add: on_webkit_add_cookie_ready_def after_callback_def Let_def
        status_after_setter status_kept split: glib_result.splits option.splits)
qed

lemma status_run_events:
  "session_status_agrees s \<Longrightarrow> session_status_agrees (run_events e evs s)"
  unfolding run_events_def by (induction evs arbitrary: s) (simp_all add: status_dispatch)

lemma status_init_state: "session_status_agrees (init_state False daemon_login)"
  by (simp add: session_status_agrees_def init_state_def)

text \<open>
  C2. The status that \<open>update_session_status\<close> stores depends on its three arguments
  only: ERROR when has\_error holds, whatever the other two are; otherwise READY when
  is\_setup\_complete holds; otherwise SETUP when is\_setup\_available holds; otherwise
  STOPPED. After an assignment to any of the three watched properties the stored status
  is that function of the three current values, and so it is at every point of a session
  that starts with a daemon without error.
\<close>

theorem session_status_function_of_flags:
  "session_status (update_session_status err avail complete s) =
     (if err then SESSION_STATUS_ERROR
      else if complete then SESSION_STATUS_READY
      else if avail then SESSION_STATUS_SETUP
      else SESSION_STATUS_STOPPED)
   \<and> session_status (update_session_status True avail complete s) = SESSION_STATUS_ERROR
   \<and> session_status (set_has_error v s) =
       session_status (update_session_status (has_error (set_has_error v s))
         (is_setup_available (set_has_error v s)) (is_setup_complete (set_has_error v s)) s0)
   \<and> session_status (set_is_setup_available v s) =
       session_status (update_session_status (has_error (set_is_setup_available v s))
         (is_setup_available (set_is_setup_available v s))
         (is_setup_complete (set_is_setup_available v s)) s0)
   \<and> session_status (set_is_setup_complete v s) =
       session_status (update_session_status (has_error (set_is_setup_complete v s))
         (is_setup_available (set_is_setup_complete v s))
         (is_setup_complete (set_is_setup_complete v s)) s0)
   \<and> session_status (run_events e evs (init_state False daemon_login)) =
       session_status (update_session_status
         (has_error (run_events e evs (init_state False daemon_login)))
         (is_setup_available (run_events e evs (init_state False daemon_login)))
         (is_setup_complete (run_events e evs (init_state False daemon_login))) s0)"
proof -
  have "session_status_agrees (run_events e evs (init_state False daemon_login))"
    by (rule status_run_events) (rule status_init_state)
  then have "session_status (run_events e evs (init_state False daemon_login)) =
       session_status (update_session_status
         (has_error (run_events e evs (init_state False daemon_login)))
         (is_setup_available (run_events e evs (init_state False daemon_login)))
         (is_setup_complete (run_events e evs (init_state False daemon_login))) s0)"
    by (simp add: session_status_agrees_def update_session_status_def emit_def)
  then show ?thesis
    by (simp add: property_setters)
qed

lemmas session_handlers = start_session_setup_def kolibri_daemon_on_dbus_owner_changed_def
  kolibri_daemon_on_get_login_token_ready_def initialize_kolibri_session_def
  check_is_kolibri_device_provisioned_def on_kolibri_initialize_api_ready_def
  on_kolibri_device_info_api_ready_def copy_cookies_from_soup_message_response_def
  on_website_data_clear_finished_def on_webkit_add_cookie_ready_def after_callback_def
  run_events_def BAD_REQUEST_def

lemma sample_session_flags:
  "\<not> has_error (run_events sample_env sample_setup (init_state False True))"
  "is_setup_complete (run_events sample_env sample_setup (init_state False True))"
  "session_status (run_events sample_env sample_setup (init_state False True)) = 3"
  by (simp_all add: status_values sample_setup_def sample_response_def session_handlers property_setters
      init_state_def Let_def insert_Diff_if)

theorem session_status_function_of_flags_witness:
  "session_status (update_session_status True True True (init_state False True)) = 0
   \<and> session_status (update_session_status False True True (init_state False True)) = 3
   \<and> session_status (update_session_status False True False (init_state False True)) = 2
   \<and> session_status (update_session_status False False False (init_state True True)) = 1
   \<and> session_status (set_has_error True (init_state False True)) = 0
   \<and> session_status (run_events sample_env sample_setup (init_state False True)) = 3"
  using session_status_function_of_flags [of True True True "init_state False True"]
    session_status_function_of_flags [of False True True "init_state False True"]
    session_status_function_of_flags [of False True False "init_state False True"]
    session_status_function_of_flags [of False False False "init_state True True"]
    session_status_function_of_flags [of _ _ _ "init_state False True" True]
    session_status_function_of_flags [where e = sample_env and evs = sample_setup
      and daemon_login = True and s0 = "init_state False True"]
    sample_session_flags
  by (simp add: status_values property_setters init_state_def)

subsection \<open>The setup flags agree at every point\<close>

lemma agree_set_is_cookie_manager_ready: "setup_flags_agree (set_is_cookie_manager_ready v s)"
  by (simp add: setup_flags_agree_def property_setters)

lemma agree_set_is_kolibri_device_provisioned:
  "setup_flags_agree (set_is_kolibri_device_provisioned v s)"
  by (simp add: setup_flags_agree_def property_setters)

lemma agree_set_is_setup_available:
  "setup_flags_agree s \<Longrightarrow> setup_flags_agree (set_is_setup_available v s)"
  by (simp add: setup_flags_agree_def property_setters)

lemma agree_set_has_error: "setup_flags_agree s \<Longrightarrow> setup_flags_agree (set_has_error v s)"
  by (simp add: setup_flags_agree_def property_setters)

lemma agree_start_request: "setup_flags_agree s \<Longrightarrow> setup_flags_agree (start_request r s)"
  by (simp add: setup_flags_agree_def start_request_def)

lemma agree_logger_error: "setup_flags_agree s \<Longrightarrow> setup_flags_agree (logger_error msg s)"
  by (simp add: setup_flags_agree_def logger_error_def)

lemma agree_emit: "setup_flags_agree s \<Longrightarrow> setup_flags_agree (emit sig s)"
  by (simp add: setup_flags_agree_def emit_def)

lemma agree_fold_start_request:
  "setup_flags_agree s \<Longrightarrow> setup_flags_agree (fold (\<lambda>c. start_request (f c)) cs s)"
  by (induction cs arbitrary: s) (simp_all add: agree_start_request)

lemma agree_other_fields:
  "setup_flags_agree s \<Longrightarrow> setup_flags_agree (s\<lparr>auth_token := t\<rparr>)"
  "setup_flags_agree s \<Longrightarrow> setup_flags_agree (s\<lparr>is_auth_token_ready := b\<rparr>)"
  "setup_flags_agree s \<Longrightarrow> setup_flags_agree (s\<lparr>cookies_to_add := p\<rparr>)"
  by (simp_all add: setup_flags_agree_def)

lemma agree_start_session_setup: "setup_flags_agree (start_session_setup s)"
  by (simp add: start_session_setup_def Let_def agree_set_is_kolibri_device_provisioned
      agree_start_request)

lemma agree_add_cookie_ready:
  assumes "setup_flags_agree s"
  shows "setup_flags_agree (after_callback s (on_webkit_add_cookie_ready result cookie s))"
  using assms
  by (simp add: on_webkit_add_cookie_ready_def after_callback_def Let_def agree_logger_error
      agree_set_is_cookie_manager_ready agree_other_fields
      split: glib_result.splits option.splits)

lemma agree_dispatch:
  assumes "setup_flags_agree s"
  shows "setup_flags_agree (dispatch e ev s)"
proof (cases ev)
  case Start_session_setup
  then show ?thesis by (simp add: agree_start_session_setup)
next
  case Dbus_owner_changed
  then show ?thesis
    by (simp add: kolibri_daemon_on_dbus_owner_changed_def agree_start_session_setup)
next
  case (Daemon_has_error v)
  with assms show ?thesis by (simp add: agree_set_has_error)
next
  case (Get_login_token_ready token)
  with assms show ?thesis
    by (simp add: kolibri_daemon_on_get_login_token_ready_def agree_other_fields)
next
  case (Initialize_kolibri_session started key ready)
  with assms show ?thesis
    by (simp add: initialize_kolibri_session_def agree_start_request)
next
  case (Kolibri_initialize_api_ready msg)
  with assms show ?thesis
    by (simp add: on_kolibri_initialize_api_ready_def check_is_kolibri_device_provisioned_def
        Let_def agree_start_request agree_set_is_setup_available)
next
  case (Kolibri_device_info_api_ready msg)
  then show ?thesis
    by (simp add: on_kolibri_device_info_api_ready_def Let_def
        agree_set_is_kolibri_device_provisioned agree_emit)
next
  case (Website_data_clear_finished result msg)
  with assms show ?thesis
    by (simp add: on_website_data_clear_finished_def copy_cookies_from_soup_message_response_def
        Let_def agree_logger_error agree_fold_start_request agree_other_fields
        split: glib_result.splits)
next
  case (Webkit_add_cookie_ready result cookie)
  with assms show ?thesis by (simp add: agree_add_cookie_ready)
qed

lemma agree_run_events: "setup_flags_agree s \<Longrightarrow> setup_flags_agree (run_events e evs s)"
  unfolding run_events_def by (induction evs arbitrary: s) (simp_all add: agree_dispatch)

lemma agree_init_state: "setup_flags_agree (init_state daemon_has_error daemon_login)"
  by (simp add: setup_flags_agree_def init_state_def)

text \<open>
  C3. After an assignment to is\_cookie\_manager\_ready or to
  is\_kolibri\_device\_provisioned, is\_setup\_complete is true iff both flags are true;
  and this holds at every point of every run of the session: in the state reached from
  a new context by any sequence of events.
\<close>

theorem is_setup_complete_iff_both_flags:
  "(is_setup_complete (set_is_cookie_manager_ready v s) =
      (is_cookie_manager_ready (set_is_cookie_manager_ready v s) \<and>
       is_kolibri_device_provisioned (set_is_cookie_manager_ready v s)))
   \<and> (is_setup_complete (set_is_kolibri_device_provisioned v s) =
      (is_cookie_manager_ready (set_is_kolibri_device_provisioned v s) \<and>
       is_kolibri_device_provisioned (set_is_kolibri_device_provisioned v s)))
   \<and> (is_setup_complete (run_events e evs (init_state daemon_has_error daemon_login)) =
      (is_cookie_manager_ready (run_events e evs (init_state daemon_has_error daemon_login)) \<and>
       is_kolibri_device_provisioned
         (run_events e evs (init_state daemon_has_error daemon_login))))"
  using agree_set_is_cookie_manager_ready [of v s]
    agree_set_is_kolibri_device_provisioned [of v s]
    agree_run_events [OF agree_init_state, of e evs daemon_has_error daemon_login]
  by (simp add: setup_flags_agree_def)

theorem is_setup_complete_iff_both_flags_witness:
  "is_setup_complete (run_events sample_env sample_setup (init_state False True))
   \<and> is_cookie_manager_ready (run_events sample_env sample_setup (init_state False True))
   \<and> is_kolibri_device_provisioned (run_events sample_env sample_setup (init_state False True))
   \<and> \<not> is_setup_complete (run_events sample_env (butlast sample_setup) (init_state False True))
   \<and> \<not> is_cookie_manager_ready
         (run_events sample_env (butlast sample_setup) (init_state False True))
   \<and> \<not> is_setup_complete (set_is_cookie_manager_ready True (init_state False True))
   \<and> \<not> is_setup_complete (set_is_kolibri_device_provisioned True (init_state False True))"
  using is_setup_complete_iff_both_flags [of True "init_state False True" sample_env
      sample_setup False True]
    is_setup_complete_iff_both_flags [of True "init_state False True" sample_env
      "butlast sample_setup" False True]
  by (simp add: sample_setup_def sample_response_def session_handlers property_setters
      init_state_def Let_def insert_Diff_if)

text \<open>
  C8. When the owner of the daemon's D-Bus name changes, the handler sets
  is\_cookie\_manager\_ready to false (so is\_setup\_complete is false) and runs
  \<open>start_session_setup\<close> again. With automatic login this puts auth\_token back to None
  and is\_auth\_token\_ready, is\_setup\_available and is\_kolibri\_device\_provisioned back to
  false, their values in a new context, and asks the daemon for a login token again.
\<close>

theorem dbus_owner_changed_resets_setup:
  "start_session_setup (set_is_cookie_manager_ready False s) =
     kolibri_daemon_on_dbus_owner_changed s
   \<and> \<not> is_cookie_manager_ready (kolibri_daemon_on_dbus_owner_changed s)
   \<and> \<not> is_setup_complete (kolibri_daemon_on_dbus_owner_changed s)
   \<and> (do_automatic_login s \<longrightarrow>
        auth_token (kolibri_daemon_on_dbus_owner_changed s) = None
      \<and> \<not> is_auth_token_ready (kolibri_daemon_on_dbus_owner_changed s)
      \<and> \<not> is_setup_available (kolibri_daemon_on_dbus_owner_changed s)
      \<and> \<not> is_kolibri_device_provisioned (kolibri_daemon_on_dbus_owner_changed s)
      \<and> auth_token (kolibri_daemon_on_dbus_owner_changed s) =
          auth_token (init_state (has_error s) True)
      \<and> is_auth_token_ready (kolibri_daemon_on_dbus_owner_changed s) =
          is_auth_token_ready (init_state (has_error s) True)
      \<and> is_setup_available (kolibri_daemon_on_dbus_owner_changed s) =
          is_setup_available (init_state (has_error s) True)
      \<and> is_kolibri_device_provisioned (kolibri_daemon_on_dbus_owner_changed s) =
          is_kolibri_device_provisioned (init_state (has_error s) True)
      \<and> requests (kolibri_daemon_on_dbus_owner_changed s) = requests s @ [Get_login_token])"
  by (simp add: kolibri_daemon_on_dbus_owner_changed_def start_session_setup_def Let_def
      property_setters init_state_def)

lemma sample_ready_state_flags:
  "do_automatic_login sample_ready_state \<and> auth_token sample_ready_state = Some ''token''
   \<and> is_auth_token_ready sample_ready_state \<and> is_cookie_manager_ready sample_ready_state
   \<and> is_kolibri_device_provisioned sample_ready_state \<and> is_setup_available sample_ready_state
   \<and> is_setup_complete sample_ready_state \<and> \<not> has_error sample_ready_state
   \<and> session_status sample_ready_state = SESSION_STATUS_READY"
  by (simp add: sample_ready_state_def sample_setup_def sample_response_def session_handlers
      property_setters init_state_def Let_def insert_Diff_if)

theorem dbus_owner_changed_resets_setup_witness:
  "do_automatic_login sample_ready_state
   \<and> is_cookie_manager_ready sample_ready_state \<and> is_setup_complete sample_ready_state
   \<and> is_setup_available sample_ready_state \<and> is_kolibri_device_provisioned sample_ready_state
   \<and> auth_token sample_ready_state = Some ''token''
   \<and> \<not> is_cookie_manager_ready (kolibri_daemon_on_dbus_owner_changed sample_ready_state)
   \<and> \<not> is_setup_complete (kolibri_daemon_on_dbus_owner_changed sample_ready_state)
   \<and> auth_token (kolibri_daemon_on_dbus_owner_changed sample_ready_state) = None
   \<and> \<not> is_auth_token_ready (kolibri_daemon_on_dbus_owner_changed sample_ready_state)
   \<and> \<not> is_setup_available (kolibri_daemon_on_dbus_owner_changed sample_ready_state)
   \<and> \<not> is_kolibri_device_provisioned (kolibri_daemon_on_dbus_owner_changed sample_ready_state)
   \<and> last (requests (kolibri_daemon_on_dbus_owner_changed sample_ready_state)) = Get_login_token"
  using dbus_owner_changed_resets_setup [of sample_ready_state] sample_ready_state_flags
  by simp

subsection \<open>Repopulating the cookie jar\<close>

lemma copy_cookies_fields:
  "cookies_to_add (copy_cookies_from_soup_message_response msg s) = Some (set (response_cookies msg))"
  "is_cookie_manager_ready (copy_cookies_from_soup_message_response msg s) = is_cookie_manager_ready s"
proof -
  have "cookies_to_add (fold (\<lambda>c. start_request (Add_cookie c)) cs u) = cookies_to_add u
      \<and> is_cookie_manager_ready (fold (\<lambda>c. start_request (Add_cookie c)) cs u) =
          is_cookie_manager_ready u" for cs u
    by (induction cs arbitrary: u) (simp_all add: start_request_def)
  then show
    "cookies_to_add (copy_cookies_from_soup_message_response msg s) = Some (set (response_cookies msg))"
    "is_cookie_manager_ready (copy_cookies_from_soup_message_response msg s) = is_cookie_manager_ready s"
    by (simp_all add: copy_cookies_from_soup_message_response_def Let_def)
qed

lemma add_cookie_ready_pending:
  assumes "cookies_to_add s = Some pending"
  shows "cookies_to_add (dispatch e (Webkit_add_cookie_ready result cookie) s) =
           Some (if result = Finished then pending - {cookie} else pending)"
  using assms
  by (cases result)
    (auto simp add: on_webkit_add_cookie_ready_def after_callback_def Let_def property_setters)

lemma add_cookie_ready_flag:
  assumes "cookies_to_add s = Some pending"
  shows "is_cookie_manager_ready (dispatch e (Webkit_add_cookie_ready result cookie) s) =
           (is_cookie_manager_ready s \<or>
            (result = Finished \<and> cookie \<in> pending \<and> pending - {cookie} = {}))"
  using assms
  by (cases result)
    (auto simp add: on_webkit_add_cookie_ready_def after_callback_def Let_def property_setters)

lemma added_cookies_snoc:
  "added_cookies (cbs @ [(result, cookie)]) =
     (if result = Finished then insert cookie (added_cookies cbs) else added_cookies cbs)"
  by (auto simp add: added_cookies_def)

lemma run_add_cookie_callbacks_snoc:
  "run_events e (add_cookie_callbacks (cbs @ [(result, cookie)])) s =
     dispatch e (Webkit_add_cookie_ready result cookie) (run_events e (add_cookie_callbacks cbs) s)"
  by (simp add: run_events_def add_cookie_callbacks_def)

lemma one_callback_per_cookie:
  "distinct (map snd cbs) \<Longrightarrow> (a, c) \<in> set cbs \<Longrightarrow> (b, c) \<in> set cbs \<Longrightarrow> a = b"
  by (induction cbs) force+

lemma pending_after_callbacks:
  "cookies_to_add (run_events e (add_cookie_callbacks cbs)
       (copy_cookies_from_soup_message_response msg s)) =
     Some (set (response_cookies msg) - added_cookies cbs)"
proof (induction cbs rule: rev_induct)
  case Nil
  show ?case
    by (simp add: run_events_def add_cookie_callbacks_def added_cookies_def copy_cookies_fields)
next
  case (snoc cb cbs)
  obtain result cookie where cb: "cb = (result, cookie)" by (cases cb)
  show ?case
    unfolding cb run_add_cookie_callbacks_snoc
    by (subst add_cookie_ready_pending [OF snoc.IH]) (auto simp add: added_cookies_snoc)
qed

lemma flag_after_callbacks:
  assumes "\<not> is_cookie_manager_ready s"
  shows "is_cookie_manager_ready (run_events e (add_cookie_callbacks cbs)
       (copy_cookies_from_soup_message_response msg s)) =
     (response_cookies msg \<noteq> [] \<and> set (response_cookies msg) \<subseteq> added_cookies cbs)"
proof (induction cbs rule: rev_induct)
  case Nil
  show ?case using assms
    by (simp add: run_events_def add_cookie_callbacks_def added_cookies_def copy_cookies_fields)
next
  case (snoc cb cbs)
  obtain result cookie where cb: "cb = (result, cookie)" by (cases cb)
  show ?case
    unfolding cb run_add_cookie_callbacks_snoc
    by (subst add_cookie_ready_flag [OF pending_after_callbacks])
      (auto simp add: snoc.IH added_cookies_snoc)
qed

text \<open>
  C7. The cookies of the initialize response are copied into the pending set and added
  one by one; \<open>cbs\<close> are the callbacks of \<^verbatim>\<open>add_cookie\<close> that have arrived so far, in any
  order and with any outcome, and (\<open>result\<close>, \<open>cookie\<close>) is the next one. Starting with
  is\_cookie\_manager\_ready false:
  \<^item> the flag is not true while a cookie of the response has not been added with success;
  \<^item> a callback turns the flag from false to true exactly when it makes the pending set
    empty, that is when it removes the last pending cookie;
  \<^item> the pending set is the cookies of the response without those added with success,
    and once all of a response with at least one cookie are added the flag is true;
  \<^item> a callback that reports an error only logs it and returns: nothing is removed, and
    when that cookie has no other callback the flag stays false.
  For a response without cookies no callback runs and nothing sets the flag.
\<close>

theorem cookie_manager_ready_when_pending_empty:
  fixes s :: kolibri_state and msg :: soup_message and cbs :: "(glib_result \<times> cookie) list"
    and e :: env and result :: glib_result and cookie :: cookie
  defines "s1 \<equiv> run_events e (add_cookie_callbacks cbs) (copy_cookies_from_soup_message_response msg s)"
  defines "s2 \<equiv> dispatch e (Webkit_add_cookie_ready result cookie) s1"
  assumes "\<not> is_cookie_manager_ready s"
  shows "(is_cookie_manager_ready s1 \<longrightarrow> set (response_cookies msg) \<subseteq> added_cookies cbs)
    \<and> ((is_cookie_manager_ready s2 \<and> \<not> is_cookie_manager_ready s1) =
         (cookies_to_add s2 = Some {} \<and> cookies_to_add s1 \<noteq> Some {}))
    \<and> cookies_to_add s1 = Some (set (response_cookies msg) - added_cookies cbs)
    \<and> (response_cookies msg \<noteq> [] \<and> set (response_cookies msg) \<subseteq> added_cookies cbs
         \<longrightarrow> is_cookie_manager_ready s1)
    \<and> dispatch e (Webkit_add_cookie_ready (GLib_Error err) cookie) s1 =
         logger_error (''Error adding cookie from API response: '' @ err) s1
    \<and> ((\<exists>c \<in> set (response_cookies msg). c \<notin> added_cookies cbs)
         \<longrightarrow> \<not> is_cookie_manager_ready s1)
    \<and> ((GLib_Error err, cookie) \<in> set cbs \<and> cookie \<in> set (response_cookies msg)
         \<and> distinct (map snd cbs) \<longrightarrow> \<not> is_cookie_manager_ready s1)"
proof -
  have pending: "cookies_to_add s1 = Some (set (response_cookies msg) - added_cookies cbs)"
    unfolding s1_def by (rule pending_after_callbacks)
  have flag: "is_cookie_manager_ready s1 =
      (response_cookies msg \<noteq> [] \<and> set (response_cookies msg) \<subseteq> added_cookies cbs)"
    unfolding s1_def using assms(3) by (rule flag_after_callbacks)
  have pending2: "cookies_to_add s2 =
      Some (if result = Finished then set (response_cookies msg) - added_cookies cbs - {cookie}
            else set (response_cookies msg) - added_cookies cbs)"
    unfolding s2_def by (rule add_cookie_ready_pending [OF pending])
  have flag2: "is_cookie_manager_ready s2 =
      (is_cookie_manager_ready s1 \<or>
       (result = Finished \<and> cookie \<in> set (response_cookies msg) - added_cookies cbs \<and>
        set (response_cookies msg) - added_cookies cbs - {cookie} = {}))"
    unfolding s2_def by (rule add_cookie_ready_flag [OF pending])
  have step: "(is_cookie_manager_ready s2 \<and> \<not> is_cookie_manager_ready s1) =
      (cookies_to_add s2 = Some {} \<and> cookies_to_add s1 \<noteq> Some {})"
    unfolding flag2 pending2 pending flag by auto
  have failed: "dispatch e (Webkit_add_cookie_ready (GLib_Error err) cookie) s1 =
      logger_error (''Error adding cookie from API response: '' @ err) s1"
    by (simp add: on_webkit_add_cookie_ready_def after_callback_def)
  have once: "\<not> is_cookie_manager_ready s1"
    if "(GLib_Error err, cookie) \<in> set cbs" "cookie \<in> set (response_cookies msg)"
      "distinct (map snd cbs)"
  proof -
    have "(Finished, cookie) \<notin> set cbs"
    proof
      assume "(Finished, cookie) \<in> set cbs"
      from that(3) this that(1) have "Finished = GLib_Error err"
        by (rule one_callback_per_cookie)
      then show False by simp
    qed
    then have "cookie \<notin> added_cookies cbs" by (simp add: added_cookies_def)
    with that(2) show ?thesis unfolding flag by auto
  qed
  show ?thesis
    using pending flag step failed once by auto
qed

theorem cookie_manager_ready_when_pending_empty_witness:
  "\<not> is_cookie_manager_ready sample_repopulating_state
   \<and> cookies_to_add sample_repopulating_state = Some {1, 2}
   \<and> \<not> is_cookie_manager_ready
        (run_events sample_env (add_cookie_callbacks [(GLib_Error ''busy'', 1), (Finished, 2)])
           sample_repopulating_state)
   \<and> cookies_to_add
        (run_events sample_env (add_cookie_callbacks [(GLib_Error ''busy'', 1), (Finished, 2)])
           sample_repopulating_state) = Some {1}
   \<and> is_cookie_manager_ready
        (run_events sample_env (add_cookie_callbacks [(Finished, 2), (Finished, 1)])
           sample_repopulating_state)
   \<and> cookies_to_add
        (run_events sample_env (add_cookie_callbacks [(Finished, 2), (Finished, 1)])
           sample_repopulating_state) = Some {}"
proof -
  define s where "s = run_events sample_env (take 5 sample_setup) (init_state False True)"
  have start: "sample_repopulating_state = copy_cookies_from_soup_message_response sample_response s"
    by (simp add: s_def sample_repopulating_state_def sample_setup_def run_events_def
        on_website_data_clear_finished_def)
  have not_ready: "\<not> is_cookie_manager_ready s"
    by (simp add: s_def sample_setup_def sample_response_def session_handlers property_setters
        init_state_def Let_def)
  have cookies: "response_cookies sample_response = [1, 2]"
    by (simp add: sample_response_def)
  have added: "added_cookies [(GLib_Error ''busy'', 1), (Finished, 2)] = {2}"
    "added_cookies [] = {}"
    "added_cookies [(Finished, 2), (Finished, 1)] = {1, 2}"
    by (auto simp add: added_cookies_def)
  show ?thesis
    using cookie_manager_ready_when_pending_empty
        [OF not_ready, where msg = sample_response and e = sample_env
          and cbs = "[(GLib_Error ''busy'', 1), (Finished, 2)]"]
      cookie_manager_ready_when_pending_empty
        [OF not_ready, where msg = sample_response and e = sample_env
          and cbs = "[(Finished, 2), (Finished, 1)]"]
      cookie_manager_ready_when_pending_empty
        [OF not_ready, where msg = sample_response and e = sample_env and cbs = "[]"]
    unfolding start cookies added
    by (simp add: not_ready copy_cookies_fields cookies insert_Diff_if run_events_def
        add_cookie_callbacks_def)
qed

subsection \<open>Errors during the setup\<close>

text \<open>
  C6, as the specification states it, fails on the code. In the sample session, with the
  device provisioned and two cookies pending, a failed \<^verbatim>\<open>add_cookie\<close> is logged and
  nothing else: the device stays provisioned, no open-setup-wizard signal is emitted and
  no exception leaves the callback. And a device-info response with status 404 is not
  logged by this module.
\<close>

theorem setup_errors_counterexample:
  "is_kolibri_device_provisioned sample_repopulating_state
   \<and> on_webkit_add_cookie_ready (GLib_Error ''busy'') 1 sample_repopulating_state =
       Inr (sample_repopulating_state
              \<lparr>logged := [''Error adding cookie from API response: busy'']\<rparr>)
   \<and> is_kolibri_device_provisioned
       (dispatch sample_env (Webkit_add_cookie_ready (GLib_Error ''busy'') 1)
          sample_repopulating_state)
   \<and> Open_setup_wizard \<notin> set (signals
       (dispatch sample_env (Webkit_add_cookie_ready (GLib_Error ''busy'') 1)
          sample_repopulating_state))
   \<and> logged (on_kolibri_device_info_api_ready
               \<lparr>message_status = 404, response_cookies = []\<rparr> sample_repopulating_state) = []"
  by (simp add: sample_repopulating_state_def sample_setup_def sample_response_def
      session_handlers property_setters init_state_def Let_def)

text \<open>
  C6, amended. No error of the setup raises. A device-info response with a status of
  400 or more sets is\_kolibri\_device\_provisioned to false, so that is\_setup\_complete is
  false, and emits open-setup-wizard; this module logs nothing for it. A failure of the
  cookie manager, while clearing the jar or adding a cookie, is logged and the callback
  returns: the continuation is not called, no signal is emitted and no property changes.
\<close>

theorem setup_errors_amended:
  "(BAD_REQUEST \<le> message_status msg \<longrightarrow>
       \<not> is_kolibri_device_provisioned (on_kolibri_device_info_api_ready msg s)
     \<and> \<not> is_setup_complete (on_kolibri_device_info_api_ready msg s)
     \<and> signals (on_kolibri_device_info_api_ready msg s) = signals s @ [Open_setup_wizard]
     \<and> logged (on_kolibri_device_info_api_ready msg s) = logged s)
   \<and> (message_status msg < BAD_REQUEST \<and> Open_setup_wizard \<notin> set (signals s) \<longrightarrow>
       is_kolibri_device_provisioned (on_kolibri_device_info_api_ready msg s)
     \<and> Open_setup_wizard \<notin> set (signals (on_kolibri_device_info_api_ready msg s)))
   \<and> on_webkit_add_cookie_ready (GLib_Error err) cookie s =
       Inr (s\<lparr>logged := logged s @ [''Error adding cookie from API response: '' @ err]\<rparr>)
   \<and> on_website_data_clear_finished (GLib_Error err) next_fn s =
       s\<lparr>logged := logged s @ [''Error clearing cookies: '' @ err]\<rparr>"
  by (simp add: on_kolibri_device_info_api_ready_def on_webkit_add_cookie_ready_def
      on_website_data_clear_finished_def Let_def property_setters BAD_REQUEST_def)

theorem setup_errors_amended_witness:
  "\<not> is_kolibri_device_provisioned
       (on_kolibri_device_info_api_ready \<lparr>message_status = 404, response_cookies = []\<rparr>
          sample_repopulating_state)
   \<and> \<not> is_setup_complete
       (on_kolibri_device_info_api_ready \<lparr>message_status = 404, response_cookies = []\<rparr>
          sample_repopulating_state)
   \<and> signals
       (on_kolibri_device_info_api_ready \<lparr>message_status = 404, response_cookies = []\<rparr>
          sample_repopulating_state) = [Open_setup_wizard]
   \<and> is_kolibri_device_provisioned
       (on_kolibri_device_info_api_ready \<lparr>message_status = 200, response_cookies = []\<rparr>
          sample_repopulating_state)
   \<and> logged (on_website_data_clear_finished (GLib_Error ''busy'')
         (copy_cookies_from_soup_message_response sample_response) sample_repopulating_state) =
       [''Error clearing cookies: busy'']"
  using setup_errors_amended [of "\<lparr>message_status = 404, response_cookies = []\<rparr>"
      sample_repopulating_state "''busy''" 1
      "copy_cookies_from_soup_message_response sample_response"]
    setup_errors_amended [of "\<lparr>message_status = 200, response_cookies = []\<rparr>"
      sample_repopulating_state "''busy''" 1
      "copy_cookies_from_soup_message_response sample_response"]
  by (simp add: sample_repopulating_state_def sample_setup_def sample_response_def
      session_handlers property_setters init_state_def Let_def)

section \<open>Properties of the URL translation\<close>

lemma lstrip_slashes:
  "c \<noteq> CHR ''/'' \<Longrightarrow> lstrip CHR ''/'' (replicate n CHR ''/'' @ c # rest) = c # rest"
  by (induction n) (simp_all add: lstrip_def)

lemma str_partition_first_segment:
  assumes "CHR ''/'' \<notin> set seg"
  shows "str_partition CHR ''/'' (seg @ CHR ''/'' # rest) = (seg, ''/'', rest)"
proof -
  from assms have all: "\<And>x. x \<in> set seg \<Longrightarrow> x \<noteq> CHR ''/''" by auto
  have d: "dropWhile (\<lambda>c. c \<noteq> CHR ''/'') (seg @ CHR ''/'' # rest) = CHR ''/'' # rest"
    using all by simp
  have t: "takeWhile (\<lambda>c. c \<noteq> CHR ''/'') (seg @ CHR ''/'' # rest) = seg"
    using all by simp
  show ?thesis unfolding str_partition_def d t by simp
qed

lemma str_partition_fst:
  "fst (str_partition CHR ''/'' s) = takeWhile (\<lambda>c. c \<noteq> CHR ''/'') s"
proof (cases "dropWhile (\<lambda>c. c \<noteq> CHR ''/'') s")
  case Nil
  then have tk: "takeWhile (\<lambda>c. c \<noteq> CHR ''/'') s = s"
    by simp
  show ?thesis unfolding str_partition_def Nil by (simp add: tk)
next
  case (Cons a as)
  then show ?thesis by (simp add: str_partition_def)
qed

lemma str_partition_parts:
  "\<exists>sep. str_partition CHR ''/'' s =
     (takeWhile (\<lambda>c. c \<noteq> CHR ''/'') s, sep,
      drop (Suc (length (takeWhile (\<lambda>c. c \<noteq> CHR ''/'') s))) s)"
proof (cases "dropWhile (\<lambda>c. c \<noteq> CHR ''/'') s")
  case Nil
  then have tk: "takeWhile (\<lambda>c. c \<noteq> CHR ''/'') s = s"
    by simp
  show ?thesis unfolding str_partition_def Nil by (simp add: tk)
next
  case (Cons a rest)
  have "drop (length (takeWhile (\<lambda>c. c \<noteq> CHR ''/'') s)) s = a # rest"
    using Cons by (simp add: dropWhile_eq_drop)
  then have "drop (Suc (length (takeWhile (\<lambda>c. c \<noteq> CHR ''/'') s))) s = rest"
    by (metis drop_Suc list.sel(3) tl_drop)
  then show ?thesis unfolding str_partition_def Cons by simp
qed

lemma parse_kolibri_url_tuple_by_segment:
  "parse_kolibri_url_tuple e ctx url_tuple =
     (if takeWhile (\<lambda>c. c \<noteq> CHR ''/'') (lstrip CHR ''/'' (path url_tuple)) = ''c'' then
        get_kolibri_content_path e
          (drop (Suc (length (takeWhile (\<lambda>c. c \<noteq> CHR ''/'') (lstrip CHR ''/'' (path url_tuple)))))
             (lstrip CHR ''/'' (path url_tuple)))
          (Some (str_join '' '' (dict_get (parse_qs e (query url_tuple)) ''search'' [])))
      else if takeWhile (\<lambda>c. c \<noteq> CHR ''/'') (lstrip CHR ''/'' (path url_tuple)) = ''t'' then
        get_kolibri_topic_path e
          (drop (Suc (length (takeWhile (\<lambda>c. c \<noteq> CHR ''/'') (lstrip CHR ''/'' (path url_tuple)))))
             (lstrip CHR ''/'' (path url_tuple)))
          None
      else get_kolibri_library_path e ctx
          (Some (str_join '' '' (dict_get (parse_qs e (query url_tuple)) ''search'' []))))"
proof -
  obtain sep where "str_partition CHR ''/'' (lstrip CHR ''/'' (path url_tuple)) =
     (takeWhile (\<lambda>c. c \<noteq> CHR ''/'') (lstrip CHR ''/'' (path url_tuple)), sep,
      drop (Suc (length (takeWhile (\<lambda>c. c \<noteq> CHR ''/'') (lstrip CHR ''/'' (path url_tuple)))))
        (lstrip CHR ''/'' (path url_tuple)))"
    using str_partition_parts by blast
  then show ?thesis
    by (simp add: parse_kolibri_url_tuple_def Let_def)
qed

lemma segment_of_typed_path:
  assumes "CHR ''/'' \<notin> set seg" "seg \<noteq> []"
  shows "takeWhile (\<lambda>c. c \<noteq> CHR ''/'')
           (lstrip CHR ''/'' (replicate n CHR ''/'' @ seg @ CHR ''/'' # node_id)) = seg"
    and "drop (Suc (length seg))
           (lstrip CHR ''/'' (replicate n CHR ''/'' @ seg @ CHR ''/'' # node_id)) = node_id"
proof -
  obtain c cs where seg: "seg = c # cs" using assms(2) by (cases seg) auto
  with assms(1) have c: "c \<noteq> CHR ''/''" by auto
  have strip: "lstrip CHR ''/'' (replicate n CHR ''/'' @ seg @ CHR ''/'' # node_id) =
      seg @ CHR ''/'' # node_id"
    unfolding seg using lstrip_slashes [OF c, of n "cs @ CHR ''/'' # node_id"] by simp
  from assms(1) have all: "\<And>x. x \<in> set seg \<Longrightarrow> x \<noteq> CHR ''/''" by auto
  show "takeWhile (\<lambda>c. c \<noteq> CHR ''/'')
           (lstrip CHR ''/'' (replicate n CHR ''/'' @ seg @ CHR ''/'' # node_id)) = seg"
    unfolding strip using all by simp
  show "drop (Suc (length seg))
           (lstrip CHR ''/'' (replicate n CHR ''/'' @ seg @ CHR ''/'' # node_id)) = node_id"
    unfolding strip by simp
qed

lemmas kolibri_paths = get_kolibri_content_path_def get_kolibri_topic_path_def
  LEARN_PATH_PREFIX_def default_path_def

subsection \<open>The library model on plain strings\<close>

text \<open>
  In the model of \<^verbatim>\<open>urllib.parse\<close>, a \<open>kolibri:\<close> URL whose node id and search term are
  made of word characters splits into the path and the query one reads in it, and the
  query parses to the one search term.
\<close>

lemma split_all_no_sep: "sep \<notin> set s \<Longrightarrow> split_all sep acc s = [rev acc @ s]"
  by (induction s arbitrary: acc) auto

lemma unquote_no_percent: "CHR ''%'' \<notin> set s \<Longrightarrow> unquote s = s"
  by (induction s rule: unquote.induct) auto

lemma unquote_plus_plain:
  "CHR ''%'' \<notin> set s \<Longrightarrow> CHR ''+'' \<notin> set s \<Longrightarrow> unquote_plus s = s"
proof -
  assume a: "CHR ''%'' \<notin> set s" "CHR ''+'' \<notin> set s"
  then have "map (\<lambda>c. if c = CHR ''+'' then CHR '' '' else c) s = s"
    by (induction s) auto
  with a show ?thesis by (simp add: unquote_plus_def unquote_no_percent)
qed

lemma py_parse_qs_search:
  assumes "CHR ''&'' \<notin> set foo" "CHR ''%'' \<notin> set foo" "CHR ''+'' \<notin> set foo"
  shows "py_parse_qs (''search='' @ foo) = [(''search'', [foo])]"
proof -
  have one: "split_all CHR ''&'' [] (''search='' @ foo) = [''search='' @ foo]"
    using split_all_no_sep [of "CHR ''&''" "''search='' @ foo" "[]"] assms(1) by simp
  have pair: "split_once CHR ''='' (''search='' @ foo) = (''search'', foo)"
    by (simp add: split_once_def)
  have name: "unquote_plus ''search'' = ''search''"
    by (rule unquote_plus_plain) simp_all
  have val: "unquote_plus foo = foo"
    using assms by (simp add: unquote_plus_plain)
  show ?thesis
    unfolding py_parse_qs_def one by (simp add: split_once_def name val)
qed

lemma split_once_absent: "sep \<notin> set s \<Longrightarrow> split_once sep s = (s, [])"
proof -
  assume "sep \<notin> set s"
  then have all: "\<And>x. x \<in> set s \<Longrightarrow> x \<noteq> sep" by auto
  then have parts: "takeWhile (\<lambda>c. c \<noteq> sep) s = s" "dropWhile (\<lambda>c. c \<noteq> sep) s = []"
    by simp_all
  show ?thesis unfolding split_once_def parts by simp
qed

lemma split_once_first: "sep \<notin> set a \<Longrightarrow> split_once sep (a @ sep # b) = (a, b)"
proof -
  assume "sep \<notin> set a"
  then have all: "\<And>x. x \<in> set a \<Longrightarrow> x \<noteq> sep" by auto
  then have parts: "takeWhile (\<lambda>c. c \<noteq> sep) (a @ sep # b) = a"
    "dropWhile (\<lambda>c. c \<noteq> sep) (a @ sep # b) = sep # b"
    by simp_all
  show ?thesis unfolding split_once_def parts by simp
qed

lemma word_char_plain:
  "word_char c \<Longrightarrow>
     c \<notin> set [CHR 0x09, CHR 0x0D, CHR 0x0A, CHR ''#'', CHR ''?'', CHR ''&'', CHR ''%'',
               CHR ''+'', CHR ''/'', CHR '':'', CHR '' '']"
  unfolding word_char_def by auto

lemma word_chars_plain:
  assumes "list_all word_char s"
  shows "\<And>x. x \<in> set s \<Longrightarrow>
     x \<notin> set [CHR 0x09, CHR 0x0D, CHR 0x0A, CHR ''#'', CHR ''?'', CHR ''&'', CHR ''%'',
               CHR ''+'', CHR ''/'', CHR '':'', CHR '' '']"
  using assms word_char_plain by (simp add: list_all_iff)

lemma py_urlsplit_kolibri:
  assumes X: "list_all word_char X" and foo: "list_all word_char foo"
    and kind: "kind = CHR ''t'' \<or> kind = CHR ''c''"
  shows "py_urlsplit (''kolibri:'' @ kind # ''/'' @ X @ ''?search='' @ foo) =
     Inr \<lparr>scheme = ''kolibri'', netloc = [], path = kind # ''/'' @ X,
          query = ''search='' @ foo, fragment = []\<rparr>"
proof -
  define rest where "rest = kind # ''/'' @ X @ ''?search='' @ foo"
  have plain_X: "\<And>x. x \<in> set X \<Longrightarrow>
     x \<notin> set [CHR 0x09, CHR 0x0D, CHR 0x0A, CHR ''#'', CHR ''?'', CHR ''&'', CHR ''%'',
               CHR ''+'', CHR ''/'', CHR '':'', CHR '' '']"
    using word_chars_plain [OF X] .
  have plain_foo: "\<And>x. x \<in> set foo \<Longrightarrow>
     x \<notin> set [CHR 0x09, CHR 0x0D, CHR 0x0A, CHR ''#'', CHR ''?'', CHR ''&'', CHR ''%'',
               CHR ''+'', CHR ''/'', CHR '':'', CHR '' '']"
    using word_chars_plain [OF foo] .
  have url1: "dropWhile (\<lambda>c. of_char c \<le> (32 :: nat)) (''kolibri:'' @ rest) = ''kolibri:'' @ rest"
    by simp
  have url2: "filter (\<lambda>c. c \<notin> set [CHR 0x09, CHR 0x0D, CHR 0x0A]) (''kolibri:'' @ rest) =
      ''kolibri:'' @ rest"
    unfolding rest_def using plain_X plain_foo kind by (auto simp add: filter_id_conv)
  have before_colon: "takeWhile (\<lambda>c. c \<noteq> CHR '':'') (''kolibri:'' @ rest) = ''kolibri''"
    by simp
  have no_netloc: "take 2 rest \<noteq> ''//''"
    unfolding rest_def using kind by auto
  have "CHR ''#'' \<notin> set rest"
    unfolding rest_def using plain_X plain_foo kind by auto
  then have frag: "split_once CHR ''#'' rest = (rest, [])"
    by (rule split_once_absent)
  have "CHR ''?'' \<notin> set (kind # ''/'' @ X)"
    using plain_X kind by auto
  then have "split_once CHR ''?'' ((kind # ''/'' @ X) @ CHR ''?'' # ''search='' @ foo) =
      (kind # ''/'' @ X, ''search='' @ foo)"
    by (rule split_once_first)
  then have qry: "split_once CHR ''?'' rest = (kind # ''/'' @ X, ''search='' @ foo)"
    unfolding rest_def by simp
  show ?thesis
    unfolding rest_def [symmetric] py_urlsplit_def Let_def url1 url2 before_colon
    by (simp add: scheme_char_def ascii_alpha_def ascii_lower_def dict_get_def no_netloc
        frag qry)
qed

lemma quote_plus_plain: "list_all word_char s \<Longrightarrow> quote_plus s = s"
proof -
  assume "list_all word_char s"
  then have "\<And>c. c \<in> set s \<Longrightarrow>
      c \<in> set ''abcdefghijklmnopqrstuvwxyzABCDEFGHIJKLMNOPQRSTUVWXYZ0123456789_''"
    by (simp add: list_all_iff word_char_def del: set_simps)
  moreover have "''abcdefghijklmnopqrstuvwxyzABCDEFGHIJKLMNOPQRSTUVWXYZ0123456789_.-~'' =
      ''abcdefghijklmnopqrstuvwxyzABCDEFGHIJKLMNOPQRSTUVWXYZ0123456789_'' @ ''.-~''"
    by simp
  ultimately have "\<And>c. c \<in> set s \<Longrightarrow>
      c \<in> set ''abcdefghijklmnopqrstuvwxyzABCDEFGHIJKLMNOPQRSTUVWXYZ0123456789_.-~''"
    by (simp only: set_append Un_iff) simp
  then have "map (\<lambda>c.
        if c \<in> set ''abcdefghijklmnopqrstuvwxyzABCDEFGHIJKLMNOPQRSTUVWXYZ0123456789_.-~''
        then [c]
        else if c = CHR '' '' then ''+''
        else [CHR ''%'', ''0123456789ABCDEF'' ! (of_char c div 16),
              ''0123456789ABCDEF'' ! (of_char c mod 16)]) s = map (\<lambda>c. [c]) s"
    by (intro map_cong) (simp_all del: set_simps)
  then have encoded: "map (\<lambda>c.
        if c \<in> set ''abcdefghijklmnopqrstuvwxyzABCDEFGHIJKLMNOPQRSTUVWXYZ0123456789_.-~''
        then [c]
        else if c = CHR '' '' then ''+''
        else [CHR ''%'', ''0123456789ABCDEF'' ! (of_char c div 16),
              ''0123456789ABCDEF'' ! (of_char c mod 16)]) s = map (\<lambda>c. [c]) s" .
  have "concat (map (\<lambda>c. [c]) s) = s"
    by (induction s) simp_all
  then show ?thesis
    unfolding quote_plus_def encoded .
qed

lemma py_urlencode_search:
  "list_all word_char foo \<Longrightarrow>
     py_urlencode [(''keywords'', foo), (''last'', ''TOPICS_TOPIC_SEARCH'')] =
       ''keywords='' @ foo @ ''&last=TOPICS_TOPIC_SEARCH''"
proof -
  assume foo: "list_all word_char foo"
  have names: "quote_plus ''keywords'' = ''keywords''" "quote_plus ''last'' = ''last''"
    "quote_plus ''TOPICS_TOPIC_SEARCH'' = ''TOPICS_TOPIC_SEARCH''"
    by code_simp+
  show ?thesis
    by (simp add: py_urlencode_def names quote_plus_plain [OF foo])
qed

lemma py_env_fields:
  "urlsplit (py_env base_url nodes) = py_urlsplit" "parse_qs (py_env base_url nodes) = py_parse_qs"
  "urlencode (py_env base_url nodes) = py_urlencode"
  by (simp_all add: py_env_def)

text \<open>
  C4. For every node id \<open>X\<close> and every query: the URL tuple with path \<open>t/X\<close> is translated
  to \<open>/learn/#/topics/t/X\<close> and nothing else, whatever the query holds, so a search term is
  dropped; the URL tuple with path \<open>c/X\<close> whose query holds the search term \<open>foo\<close> is
  translated to the content path of \<open>X\<close> followed by the query that \<^verbatim>\<open>urlencode\<close> makes
  of \<open>keywords = foo\<close> and \<open>last = TOPICS_TOPIC_SEARCH\<close>, so the term is kept. A search
  term is a string that is not empty (\<^verbatim>\<open>if search:\<close>); \<open>foo\<close> is what \<^verbatim>\<open>parse_qs\<close> finds
  under \<open>search\<close>, several values joined by spaces. With the library model, for a node
  id and a search term of word characters: \<open>kolibri:t/X?search=foo\<close> gives
  \<open>/learn/#/topics/t/X\<close>, and \<open>kolibri:c/X?search=foo\<close> gives
  \<open>/learn/#/topics/c/X?keywords=foo&last=TOPICS_TOPIC_SEARCH\<close>.
\<close>

theorem search_term_dropped_for_topic_kept_for_content:
  "(path url_tuple = ''t/'' @ X \<longrightarrow>
      parse_kolibri_url_tuple e ctx url_tuple = ''/learn/#/topics/t/'' @ X)
   \<and> (path url_tuple = ''c/'' @ X
      \<and> str_join '' '' (dict_get (parse_qs e (query url_tuple)) ''search'' []) = foo
      \<and> foo \<noteq> [] \<longrightarrow>
      parse_kolibri_url_tuple e ctx url_tuple =
        ''/learn/#/topics/c/'' @ X @ ''?'' @
          urlencode e [(''keywords'', foo), (''last'', ''TOPICS_TOPIC_SEARCH'')])
   \<and> (list_all word_char X \<and> list_all word_char foo \<and> foo \<noteq> [] \<longrightarrow>
      (\<exists>topic_tuple.
          urlsplit (py_env base_url nodes) (''kolibri:t/'' @ X @ ''?search='' @ foo) =
            Inr topic_tuple
        \<and> parse_kolibri_url_tuple (py_env base_url nodes) ctx topic_tuple =
            ''/learn/#/topics/t/'' @ X)
      \<and> (\<exists>content_tuple.
          urlsplit (py_env base_url nodes) (''kolibri:c/'' @ X @ ''?search='' @ foo) =
            Inr content_tuple
        \<and> parse_kolibri_url_tuple (py_env base_url nodes) ctx content_tuple =
            ''/learn/#/topics/c/'' @ X @ ''?keywords='' @ foo @ ''&last=TOPICS_TOPIC_SEARCH''))"
proof -
  have t: "takeWhile (\<lambda>c. c \<noteq> CHR ''/'') (lstrip CHR ''/'' (''t/'' @ X)) = ''t''"
    "drop (Suc (length ''t'')) (lstrip CHR ''/'' (''t/'' @ X)) = X"
    using segment_of_typed_path [of "''t''" 0 X] by simp_all
  have c: "takeWhile (\<lambda>c. c \<noteq> CHR ''/'') (lstrip CHR ''/'' (''c/'' @ X)) = ''c''"
    "drop (Suc (length ''c'')) (lstrip CHR ''/'' (''c/'' @ X)) = X"
    using segment_of_typed_path [of "''c''" 0 X] by simp_all
  have topic: "parse_kolibri_url_tuple e' ctx tuple = ''/learn/#/topics/t/'' @ X"
    if "path tuple = ''t/'' @ X" for e' tuple
    using that t by (simp add: parse_kolibri_url_tuple_by_segment kolibri_paths)
  have content: "parse_kolibri_url_tuple e' ctx tuple =
        ''/learn/#/topics/c/'' @ X @ ''?'' @
          urlencode e' [(''keywords'', foo), (''last'', ''TOPICS_TOPIC_SEARCH'')]"
    if "path tuple = ''c/'' @ X"
      "str_join '' '' (dict_get (parse_qs e' (query tuple)) ''search'' []) = foo" "foo \<noteq> []"
    for e' tuple
    using that c by (simp add: parse_kolibri_url_tuple_by_segment kolibri_paths)
  have model: "(\<exists>topic_tuple.
          urlsplit (py_env base_url nodes) (''kolibri:t/'' @ X @ ''?search='' @ foo) =
            Inr topic_tuple
        \<and> parse_kolibri_url_tuple (py_env base_url nodes) ctx topic_tuple =
            ''/learn/#/topics/t/'' @ X)
      \<and> (\<exists>content_tuple.
          urlsplit (py_env base_url nodes) (''kolibri:c/'' @ X @ ''?search='' @ foo) =
            Inr content_tuple
        \<and> parse_kolibri_url_tuple (py_env base_url nodes) ctx content_tuple =
            ''/learn/#/topics/c/'' @ X @ ''?keywords='' @ foo @ ''&last=TOPICS_TOPIC_SEARCH'')"
    if words: "list_all word_char X" "list_all word_char foo" and nonempty: "foo \<noteq> []"
  proof -
    have split: "py_urlsplit (''kolibri:'' @ kind # ''/'' @ X @ ''?search='' @ foo) =
        Inr \<lparr>scheme = ''kolibri'', netloc = [], path = kind # ''/'' @ X,
             query = ''search='' @ foo, fragment = []\<rparr>"
      if "kind = CHR ''t'' \<or> kind = CHR ''c''" for kind
      using py_urlsplit_kolibri [OF words that] .
    have plain: "CHR ''&'' \<notin> set foo" "CHR ''%'' \<notin> set foo" "CHR ''+'' \<notin> set foo"
      using word_chars_plain [OF words(2)] by auto
    have search: "str_join '' '' (dict_get (py_parse_qs (''search='' @ foo)) ''search'' []) = foo"
      unfolding py_parse_qs_search [OF plain] dict_get_def by simp
    have topic_path: "parse_kolibri_url_tuple (py_env base_url nodes) ctx
        \<lparr>scheme = ''kolibri'', netloc = [], path = CHR ''t'' # ''/'' @ X,
         query = ''search='' @ foo, fragment = []\<rparr> = ''/learn/#/topics/t/'' @ X"
      by (rule topic) simp
    have content_path: "parse_kolibri_url_tuple (py_env base_url nodes) ctx
        \<lparr>scheme = ''kolibri'', netloc = [], path = CHR ''c'' # ''/'' @ X,
         query = ''search='' @ foo, fragment = []\<rparr> =
        ''/learn/#/topics/c/'' @ X @ ''?'' @
          urlencode (py_env base_url nodes)
            [(''keywords'', foo), (''last'', ''TOPICS_TOPIC_SEARCH'')]"
    proof (rule content)
      show "path \<lparr>scheme = ''kolibri'', netloc = [], path = CHR ''c'' # ''/'' @ X,
         query = ''search='' @ foo, fragment = []\<rparr> = ''c/'' @ X"
        by simp
      show "str_join '' '' (dict_get (parse_qs (py_env base_url nodes)
         (query \<lparr>scheme = ''kolibri'', netloc = [], path = CHR ''c'' # ''/'' @ X,
            query = ''search='' @ foo, fragment = []\<rparr>)) ''search'' []) = foo"
        by (simp only: py_env_fields SplitResult.select_convs search)
      show "foo \<noteq> []" by (rule nonempty)
    qed
    show ?thesis
      using split [of "CHR ''t''"] split [of "CHR ''c''"] topic_path content_path
      by (simp add: py_env_fields py_urlencode_search [OF words(2)])
  qed
  show ?thesis
    using topic [of url_tuple e] content [of url_tuple e] model by blast
qed

lemma sample_env_fields:
  "urlsplit sample_env = py_urlsplit" "parse_qs sample_env = py_parse_qs"
  "urlencode sample_env = py_urlencode"
  by (simp_all add: sample_env_def py_env_def)

lemma sample_urlsplit_kolibri:
  "py_urlsplit ''kolibri:t/aaa111?search=foo'' =
     Inr \<lparr>scheme = ''kolibri'', netloc = [], path = ''t/aaa111'', query = ''search=foo'',
          fragment = []\<rparr>"
  "py_urlsplit ''kolibri:c/aaa111?search=foo'' =
     Inr \<lparr>scheme = ''kolibri'', netloc = [], path = ''c/aaa111'', query = ''search=foo'',
          fragment = []\<rparr>"
  "py_urlsplit ''kolibri:?search=foo'' =
     Inr \<lparr>scheme = ''kolibri'', netloc = [], path = [], query = ''search=foo'',
          fragment = []\<rparr>"
  by code_simp+

lemma sample_empty_query: "py_parse_qs [] = []"
  by code_simp

lemma sample_query:
  "py_parse_qs ''search=foo'' = [(''search'', [''foo''])]"
  "py_urlencode [(''keywords'', ''foo''), (''last'', ''TOPICS_TOPIC_SEARCH'')] =
     ''keywords=foo&last=TOPICS_TOPIC_SEARCH''"
  "py_urlencode [(''keywords'', ''foo'')] = ''keywords=foo''"
  by code_simp+

theorem search_term_dropped_for_topic_kept_for_content_witness:
  "urlsplit sample_env ''kolibri:t/aaa111?search=foo'' =
     Inr \<lparr>scheme = ''kolibri'', netloc = [], path = ''t/aaa111'', query = ''search=foo'',
          fragment = []\<rparr>
   \<and> parse_kolibri_url_tuple sample_env KolibriContext
       \<lparr>scheme = ''kolibri'', netloc = [], path = ''t/aaa111'', query = ''search=foo'',
        fragment = []\<rparr> = ''/learn/#/topics/t/aaa111''
   \<and> urlsplit sample_env ''kolibri:c/aaa111?search=foo'' =
     Inr \<lparr>scheme = ''kolibri'', netloc = [], path = ''c/aaa111'', query = ''search=foo'',
          fragment = []\<rparr>
   \<and> parse_kolibri_url_tuple sample_env KolibriContext
       \<lparr>scheme = ''kolibri'', netloc = [], path = ''c/aaa111'', query = ''search=foo'',
        fragment = []\<rparr> = ''/learn/#/topics/c/aaa111?keywords=foo&last=TOPICS_TOPIC_SEARCH''"
  using search_term_dropped_for_topic_kept_for_content
      [where url_tuple = "\<lparr>scheme = ''kolibri'', netloc = [], path = ''t/aaa111'',
            query = ''search=foo'', fragment = []\<rparr>" and X = "''aaa111''" and e = sample_env
          and ctx = KolibriContext and foo = "''foo''"]
    search_term_dropped_for_topic_kept_for_content
      [where url_tuple = "\<lparr>scheme = ''kolibri'', netloc = [], path = ''c/aaa111'',
            query = ''search=foo'', fragment = []\<rparr>" and X = "''aaa111''" and e = sample_env
          and ctx = KolibriContext and foo = "''foo''"]
  by (simp add: sample_env_fields sample_urlsplit_kolibri sample_query dict_get_def)

text \<open>
  C5. \<open>parse_kolibri_url_tuple\<close> looks at the first segment of the path, leading slashes
  dropped. With \<open>search\<close> the values of the query parameter \<open>search\<close> joined by spaces:
  \<^item> the path \<open>t/<id>\<close> gives the topic view \<open>/learn/#/topics/t/<id>\<close>;
  \<^item> the path \<open>c/<id>\<close> gives the content view \<open>/learn/#/topics/c/<id>\<close>, followed by the
    encoded query of \<open>keywords\<close> and \<open>last\<close> when \<open>search\<close> is not empty;
  \<^item> every path whose first segment is neither \<open>c\<close> nor \<open>t\<close>, the empty path of a bare
    query included, gives for a KolibriContext the home view \<open>/learn/#/home\<close>, or the
    library view \<open>/learn/#/library?\<close> with the encoded \<open>keywords\<close> when \<open>search\<close> is not
    empty.
  A path that is just \<open>t\<close> or \<open>c\<close> counts as \<open>t/\<close> or \<open>c/\<close> with an empty id.
\<close>

theorem kolibri_url_classified_by_first_segment:
  fixes e :: env and url_tuple :: SplitResult
  defines "search \<equiv> str_join '' '' (dict_get (parse_qs e (query url_tuple)) ''search'' [])"
  defines "segment \<equiv> takeWhile (\<lambda>c. c \<noteq> CHR ''/'') (lstrip CHR ''/'' (path url_tuple))"
  shows
   "(path url_tuple = replicate n CHR ''/'' @ ''t/'' @ node_id \<longrightarrow>
       parse_kolibri_url_tuple e ctx url_tuple = ''/learn/#/topics/t/'' @ node_id)
    \<and> (path url_tuple = replicate n CHR ''/'' @ ''c/'' @ node_id \<longrightarrow>
       parse_kolibri_url_tuple e ctx url_tuple =
         ''/learn/#/topics/c/'' @ node_id @
           (if search = [] then []
            else ''?'' @ urlencode e [(''keywords'', search), (''last'', ''TOPICS_TOPIC_SEARCH'')]))
    \<and> (segment \<noteq> ''c'' \<and> segment \<noteq> ''t'' \<longrightarrow>
       parse_kolibri_url_tuple e KolibriContext url_tuple =
         (if search = [] then ''/learn/#/home''
          else ''/learn/#/library?'' @ urlencode e [(''keywords'', search)]))
    \<and> (path url_tuple = [] \<longrightarrow>
       parse_kolibri_url_tuple e KolibriContext url_tuple =
         (if search = [] then ''/learn/#/home''
          else ''/learn/#/library?'' @ urlencode e [(''keywords'', search)]))
    \<and> (segment = ''t'' \<longrightarrow>
       parse_kolibri_url_tuple e ctx url_tuple =
         ''/learn/#/topics/t/'' @ drop 2 (lstrip CHR ''/'' (path url_tuple)))
    \<and> (segment = ''c'' \<longrightarrow>
       parse_kolibri_url_tuple e ctx url_tuple =
         ''/learn/#/topics/c/'' @ drop 2 (lstrip CHR ''/'' (path url_tuple)) @
           (if search = [] then []
            else ''?'' @ urlencode e [(''keywords'', search), (''last'', ''TOPICS_TOPIC_SEARCH'')]))"
proof -
  have t: "takeWhile (\<lambda>c. c \<noteq> CHR ''/'') (lstrip CHR ''/'' (replicate n CHR ''/'' @ ''t/'' @ node_id)) = ''t''"
    "drop (Suc (length ''t'')) (lstrip CHR ''/'' (replicate n CHR ''/'' @ ''t/'' @ node_id)) = node_id"
    using segment_of_typed_path [of "''t''" n node_id] by simp_all
  have c: "takeWhile (\<lambda>c. c \<noteq> CHR ''/'') (lstrip CHR ''/'' (replicate n CHR ''/'' @ ''c/'' @ node_id)) = ''c''"
    "drop (Suc (length ''c'')) (lstrip CHR ''/'' (replicate n CHR ''/'' @ ''c/'' @ node_id)) = node_id"
    using segment_of_typed_path [of "''c''" n node_id] by simp_all
  have typed_t: "path url_tuple = replicate n CHR ''/'' @ ''t/'' @ node_id \<longrightarrow>
       parse_kolibri_url_tuple e ctx url_tuple = ''/learn/#/topics/t/'' @ node_id"
    using t by (simp add: parse_kolibri_url_tuple_by_segment kolibri_paths)
  have typed_c: "path url_tuple = replicate n CHR ''/'' @ ''c/'' @ node_id \<longrightarrow>
       parse_kolibri_url_tuple e ctx url_tuple =
         ''/learn/#/topics/c/'' @ node_id @
           (if search = [] then []
            else ''?'' @ urlencode e [(''keywords'', search), (''last'', ''TOPICS_TOPIC_SEARCH'')])"
    using c by (simp add: parse_kolibri_url_tuple_by_segment kolibri_paths search_def)
  have other: "segment \<noteq> ''c'' \<and> segment \<noteq> ''t'' \<longrightarrow>
       parse_kolibri_url_tuple e KolibriContext url_tuple =
         (if search = [] then ''/learn/#/home''
          else ''/learn/#/library?'' @ urlencode e [(''keywords'', search)])"
    by (simp add: parse_kolibri_url_tuple_by_segment kolibri_paths search_def segment_def)
  have bare: "path url_tuple = [] \<longrightarrow>
       parse_kolibri_url_tuple e KolibriContext url_tuple =
         (if search = [] then ''/learn/#/home''
          else ''/learn/#/library?'' @ urlencode e [(''keywords'', search)])"
    by (simp add: parse_kolibri_url_tuple_by_segment kolibri_paths search_def lstrip_def)
  have seg_t: "segment = ''t'' \<longrightarrow>
       parse_kolibri_url_tuple e ctx url_tuple =
         ''/learn/#/topics/t/'' @ drop 2 (lstrip CHR ''/'' (path url_tuple))"
    by (simp add: parse_kolibri_url_tuple_by_segment kolibri_paths segment_def numeral_2_eq_2)
  have seg_c: "segment = ''c'' \<longrightarrow>
       parse_kolibri_url_tuple e ctx url_tuple =
         ''/learn/#/topics/c/'' @ drop 2 (lstrip CHR ''/'' (path url_tuple)) @
           (if search = [] then []
            else ''?'' @ urlencode e [(''keywords'', search), (''last'', ''TOPICS_TOPIC_SEARCH'')])"
    by (simp add: parse_kolibri_url_tuple_by_segment kolibri_paths segment_def search_def
        numeral_2_eq_2)
  show ?thesis
    using typed_t typed_c other bare seg_t seg_c by blast
qed

theorem kolibri_url_classified_by_first_segment_witness:
  "parse_kolibri_url_tuple sample_env KolibriContext
       \<lparr>scheme = ''kolibri'', netloc = [], path = ''t/aaa111'', query = ''search=foo'',
        fragment = []\<rparr> = ''/learn/#/topics/t/aaa111''
   \<and> parse_kolibri_url_tuple sample_env KolibriContext
       \<lparr>scheme = ''kolibri'', netloc = [], path = ''c/aaa111'', query = ''search=foo'',
        fragment = []\<rparr> = ''/learn/#/topics/c/aaa111?keywords=foo&last=TOPICS_TOPIC_SEARCH''
   \<and> parse_kolibri_url_tuple sample_env KolibriContext
       \<lparr>scheme = ''kolibri'', netloc = [], path = ''c/aaa111'', query = [],
        fragment = []\<rparr> = ''/learn/#/topics/c/aaa111''
   \<and> parse_kolibri_url_tuple sample_env KolibriContext
       \<lparr>scheme = ''kolibri'', netloc = [], path = [], query = ''search=foo'',
        fragment = []\<rparr> = ''/learn/#/library?keywords=foo''
   \<and> parse_kolibri_url_tuple sample_env KolibriContext
       \<lparr>scheme = ''kolibri'', netloc = [], path = ''x/aaa111'', query = [],
        fragment = []\<rparr> = ''/learn/#/home''"
  using kolibri_url_classified_by_first_segment
      [of "\<lparr>scheme = ''kolibri'', netloc = [], path = ''t/aaa111'', query = ''search=foo'',
            fragment = []\<rparr>" 0 "''aaa111''" sample_env KolibriContext]
    kolibri_url_classified_by_first_segment
      [of "\<lparr>scheme = ''kolibri'', netloc = [], path = ''c/aaa111'', query = ''search=foo'',
            fragment = []\<rparr>" 0 "''aaa111''" sample_env KolibriContext]
    kolibri_url_classified_by_first_segment
      [of "\<lparr>scheme = ''kolibri'', netloc = [], path = ''c/aaa111'', query = [],
            fragment = []\<rparr>" 0 "''aaa111''" sample_env KolibriContext]
    kolibri_url_classified_by_first_segment
      [of "\<lparr>scheme = ''kolibri'', netloc = [], path = [], query = ''search=foo'',
            fragment = []\<rparr>" 0 "''aaa111''" sample_env KolibriContext]
    kolibri_url_classified_by_first_segment
      [of "\<lparr>scheme = ''kolibri'', netloc = [], path = ''x/aaa111'', query = [],
            fragment = []\<rparr>" 0 "''aaa111''" sample_env KolibriContext]
  by (simp add: sample_env_fields sample_query sample_empty_query dict_get_def lstrip_def)

lemma sample_home_path:
  "parse_kolibri_url_tuple sample_env KolibriContext
       \<lparr>scheme = ''kolibri'', netloc = [], path = [], query = [],
        fragment = []\<rparr> = ''/learn/#/home''"
  by (simp add: parse_kolibri_url_tuple_by_segment kolibri_paths sample_env_fields
      sample_empty_query dict_get_def lstrip_def)

text \<open>
  C9. For a KolibriChannelContext with channel id \<open>C\<close>, a URL tuple whose first path
  segment is neither \<open>c\<close> nor \<open>t\<close> is translated to the topic path of the channel,
  \<open>/learn/#/topics/t/C\<close>, followed by \<open>/search?\<close> and the encoded \<open>keywords\<close> when the
  search term is not empty. This is never the path a KolibriContext gives for the same
  URL. The default URL of the context is \<open>x-kolibri-app:\<close> followed by that topic path.
\<close>

theorem channel_library_path_is_channel_topic:
  fixes e :: env and url_tuple :: SplitResult
  defines "search \<equiv> str_join '' '' (dict_get (parse_qs e (query url_tuple)) ''search'' [])"
  defines "segment \<equiv> takeWhile (\<lambda>c. c \<noteq> CHR ''/'') (lstrip CHR ''/'' (path url_tuple))"
  shows
   "(segment \<noteq> ''c'' \<and> segment \<noteq> ''t'' \<longrightarrow>
       parse_kolibri_url_tuple e (KolibriChannelContext C) url_tuple =
         ''/learn/#/topics/t/'' @ C @
           (if search = [] then [] else ''/search?'' @ urlencode e [(''keywords'', search)])
     \<and> parse_kolibri_url_tuple e (KolibriChannelContext C) url_tuple \<noteq>
         parse_kolibri_url_tuple e KolibriContext url_tuple)
    \<and> default_url (KolibriChannelContext C) = ''x-kolibri-app:'' @ ''/learn/#/topics/t/'' @ C
    \<and> default_url (KolibriChannelContext C) =
        APP_URI_SCHEME @ '':'' @ get_kolibri_topic_path e C None"
  by (simp add: parse_kolibri_url_tuple_by_segment kolibri_paths search_def segment_def
      APP_URI_SCHEME_def)

theorem channel_library_path_is_channel_topic_witness:
  "parse_kolibri_url_tuple sample_env (KolibriChannelContext ''c0ffee'')
       \<lparr>scheme = ''kolibri'', netloc = [], path = [], query = ''search=foo'',
        fragment = []\<rparr> = ''/learn/#/topics/t/c0ffee/search?keywords=foo''
   \<and> parse_kolibri_url_tuple sample_env (KolibriChannelContext ''c0ffee'')
       \<lparr>scheme = ''kolibri'', netloc = [], path = [], query = [],
        fragment = []\<rparr> = ''/learn/#/topics/t/c0ffee''
   \<and> parse_kolibri_url_tuple sample_env KolibriContext
       \<lparr>scheme = ''kolibri'', netloc = [], path = [], query = [],
        fragment = []\<rparr> = ''/learn/#/home''
   \<and> default_url (KolibriChannelContext ''c0ffee'') = ''x-kolibri-app:/learn/#/topics/t/c0ffee''"
  using channel_library_path_is_channel_topic
      [of "\<lparr>scheme = ''kolibri'', netloc = [], path = [], query = ''search=foo'',
            fragment = []\<rparr>" sample_env "''c0ffee''"]
    channel_library_path_is_channel_topic
      [of "\<lparr>scheme = ''kolibri'', netloc = [], path = [], query = [],
            fragment = []\<rparr>" sample_env "''c0ffee''"]
    sample_home_path
  by (simp add: sample_env_fields sample_query sample_empty_query dict_get_def lstrip_def)

section \<open>The patterns as path prefixes\<close>

text \<open>
  What the matcher leaves of the input does not depend on the groups captured before, so
  whether a pattern matches can be read off the inputs left alone.
\<close>

lemma star_rests_mem:
  "(r \<in> set (star_rests P s)) = (\<exists>pre. list_all P pre \<and> s = pre @ r)"
proof (induction s)
  case Nil
  show ?case by auto
next
  case (Cons c cs)
  show ?case
  proof (cases "P c")
    case True
    have "(\<exists>pre. list_all P pre \<and> c # cs = pre @ r) =
        (r = c # cs \<or> (\<exists>pre. list_all P pre \<and> cs = pre @ r))"
    proof
      assume "\<exists>pre. list_all P pre \<and> c # cs = pre @ r"
      then obtain pre where pre: "list_all P pre" "c # cs = pre @ r" by blast
      show "r = c # cs \<or> (\<exists>pre. list_all P pre \<and> cs = pre @ r)"
      proof (cases pre)
        case Nil
        with pre show ?thesis by simp
      next
        case (Cons a as)
        with pre have "list_all P as" "cs = as @ r" by simp_all
        then show ?thesis by blast
      qed
    next
      assume "r = c # cs \<or> (\<exists>pre. list_all P pre \<and> cs = pre @ r)"
      then show "\<exists>pre. list_all P pre \<and> c # cs = pre @ r"
      proof
        assume "r = c # cs"
        then have "list_all P [] \<and> c # cs = [] @ r" by simp
        then show ?thesis by blast
      next
        assume "\<exists>pre. list_all P pre \<and> cs = pre @ r"
        then obtain pre where "list_all P pre" "cs = pre @ r" by blast
        with True have "list_all P (c # pre) \<and> c # cs = (c # pre) @ r" by simp
        then show ?thesis by blast
      qed
    qed
    with True Cons.IH show ?thesis by auto
  next
    case False
    have "(\<exists>pre. list_all P pre \<and> c # cs = pre @ r) = (r = c # cs)"
    proof
      assume "\<exists>pre. list_all P pre \<and> c # cs = pre @ r"
      then obtain pre where pre: "list_all P pre" "c # cs = pre @ r" by blast
      show "r = c # cs"
      proof (cases pre)
        case Nil
        with pre show ?thesis by simp
      next
        case (Cons a as)
        with pre False show ?thesis by simp
      qed
    next
      assume "r = c # cs"
      then have "list_all P [] \<and> c # cs = [] @ r" by simp
      then show "\<exists>pre. list_all P pre \<and> c # cs = pre @ r" by blast
    qed
    with False show ?thesis by simp
  qed
qed

lemma startswith_iff: "startswith s pre = (\<exists>rest. s = pre @ rest)"
  unfolding startswith_def by (metis append_eq_conv_conj append_take_drop_id)

lemma rests_any_groups: "fst ` set (run r s g) = rests r s"
proof (induction r arbitrary: s g)
  case (Lit l)
  show ?case by (cases "take (length l) s = l") (simp_all add: rests_def)
next
  case (Cls P)
  show ?case
  proof (cases s)
    case Nil
    then show ?thesis by (simp add: rests_def)
  next
    case (Cons c cs)
    then show ?thesis by (cases "P c") (simp_all add: rests_def)
  qed
next
  case (Plus_cls P)
  show ?case
  proof (cases s)
    case Nil
    then show ?thesis by (simp add: rests_def)
  next
    case (Cons c cs)
    then show ?thesis by (cases "P c") (simp_all add: rests_def image_image)
  qed
next
  case (Seq a b)
  have "fst ` set (run (Seq a b) s g) = (\<Union>m \<in> set (run a s g). fst ` set (run b (fst m) (snd m)))"
    by (auto simp add: case_prod_beta image_UN)
  also have "\<dots> = (\<Union>m \<in> set (run a s g). rests b (fst m))"
    by (simp add: Seq.IH(2))
  also have "\<dots> = (\<Union>s' \<in> fst ` set (run a s g). rests b s')"
    by auto
  also have "\<dots> = (\<Union>s' \<in> rests a s. rests b s')"
    by (simp add: Seq.IH(1))
  finally have general: "fst ` set (run (Seq a b) s g) = (\<Union>s' \<in> rests a s. rests b s')" .
  have "rests (Seq a b) s = (\<Union>m \<in> set (run a s []). fst ` set (run b (fst m) (snd m)))"
    by (auto simp add: rests_def case_prod_beta image_UN)
  also have "\<dots> = (\<Union>m \<in> set (run a s []). rests b (fst m))"
    by (simp add: Seq.IH(2))
  also have "\<dots> = (\<Union>s' \<in> rests a s. rests b s')"
    by (auto simp add: rests_def)
  finally show ?case using general by simp
next
  case (Alt a b)
  have "fst ` set (run (Alt a b) s g) = fst ` set (run a s g) \<union> fst ` set (run b s g)"
    by (simp add: image_Un)
  also have "\<dots> = rests a s \<union> rests b s" by (simp add: Alt.IH)
  also have "\<dots> = rests (Alt a b) s" by (simp add: rests_def image_Un)
  finally show ?case .
next
  case (Opt a)
  have "fst ` set (run (Opt a) s g) = insert s (fst ` set (run a s g))"
    by simp
  also have "\<dots> = insert s (rests a s)" by (simp add: Opt.IH)
  also have "\<dots> = rests (Opt a) s" by (simp add: rests_def)
  finally show ?case .
next
  case (Group n a)
  have "fst ` set (run (Group n a) s g) = fst ` set (run a s g)"
    by (auto simp add: image_image case_prod_beta)
  also have "\<dots> = rests a s" by (simp add: Group.IH)
  also have "\<dots> = fst ` set (run a s [])" by (simp add: rests_def)
  also have "\<dots> = rests (Group n a) s"
    by (auto simp add: rests_def image_image case_prod_beta)
  finally show ?case .
qed

lemma rests_Lit: "rests (Lit l) s = {s'. s = l @ s'}"
proof (cases "take (length l) s = l")
  case True
  then have "s = l @ drop (length l) s" by (metis append_take_drop_id)
  then have "{s'. s = l @ s'} = {drop (length l) s}" by auto
  with True show ?thesis by (simp add: rests_def)
next
  case False
  then have "{s'. s = l @ s'} = {}" by auto
  with False show ?thesis by (simp add: rests_def)
qed

lemma rests_Plus_cls:
  "rests (Plus_cls P) s = {s'. \<exists>pre. pre \<noteq> [] \<and> list_all P pre \<and> s = pre @ s'}"
proof (cases s)
  case Nil
  then show ?thesis by (simp add: rests_def)
next
  case (Cons c cs)
  show ?thesis
  proof (cases "P c")
    case True
    have "rests (Plus_cls P) s = set (star_rests P cs)"
      using Cons True by (simp add: rests_def image_image)
    also have "\<dots> = {s'. \<exists>pre. list_all P pre \<and> cs = pre @ s'}"
      by (auto simp add: star_rests_mem)
    also have "\<dots> = {s'. \<exists>pre. pre \<noteq> [] \<and> list_all P pre \<and> s = pre @ s'}"
    proof (rule Collect_cong)
      fix s'
      show "(\<exists>pre. list_all P pre \<and> cs = pre @ s') =
          (\<exists>pre. pre \<noteq> [] \<and> list_all P pre \<and> s = pre @ s')"
      proof
        assume "\<exists>pre. list_all P pre \<and> cs = pre @ s'"
        then obtain pre where "list_all P pre" "cs = pre @ s'" by blast
        with True Cons have "c # pre \<noteq> [] \<and> list_all P (c # pre) \<and> s = (c # pre) @ s'"
          by simp
        then show "\<exists>pre. pre \<noteq> [] \<and> list_all P pre \<and> s = pre @ s'" by blast
      next
        assume "\<exists>pre. pre \<noteq> [] \<and> list_all P pre \<and> s = pre @ s'"
        then obtain pre where pre: "pre \<noteq> []" "list_all P pre" "s = pre @ s'" by blast
        then obtain a as where "pre = a # as" by (cases pre) auto
        with pre Cons have "list_all P as \<and> cs = as @ s'" by simp
        then show "\<exists>pre. list_all P pre \<and> cs = pre @ s'" by blast
      qed
    qed
    finally show ?thesis .
  next
    case False
    have "\<not> (\<exists>pre. pre \<noteq> [] \<and> list_all P pre \<and> s = pre @ s')" for s'
    proof
      assume "\<exists>pre. pre \<noteq> [] \<and> list_all P pre \<and> s = pre @ s'"
      then obtain pre where pre: "pre \<noteq> []" "list_all P pre" "s = pre @ s'" by blast
      then obtain a as where "pre = a # as" by (cases pre) auto
      with pre Cons False show False by simp
    qed
    with Cons False show ?thesis by (simp add: rests_def)
  qed
qed

lemma rests_Seq: "rests (Seq a b) s = (\<Union>s' \<in> rests a s. rests b s')"
proof -
  have "rests (Seq a b) s = (\<Union>m \<in> set (run a s []). fst ` set (run b (fst m) (snd m)))"
    by (auto simp add: rests_def case_prod_beta image_UN)
  also have "\<dots> = (\<Union>m \<in> set (run a s []). rests b (fst m))"
    by (simp add: rests_any_groups)
  also have "\<dots> = (\<Union>s' \<in> rests a s. rests b s')"
    by (auto simp add: rests_def)
  finally show ?thesis .
qed

lemma rests_Alt: "rests (Alt a b) s = rests a s \<union> rests b s"
  by (simp add: rests_def image_Un)

lemma rests_Opt: "rests (Opt a) s = insert s (rests a s)"
  by (simp add: rests_def)

lemma rests_Group: "rests (Group n a) s = rests a s"
  by (auto simp add: rests_def image_image case_prod_beta)

lemma re_match_rests: "(re_match r s \<noteq> None) = (rests r s \<noteq> {})"
  by (simp add: re_match_def rests_def split: list.splits)

lemma rests_alternatives:
  "ls \<noteq> [] \<Longrightarrow> rests (alternatives ls) s = {s'. \<exists>l \<in> set ls. s = l @ s'}"
proof (induction ls rule: alternatives.induct)
  case 1
  then show ?case by simp
next
  case (2 l)
  show ?case by (simp add: rests_Lit)
next
  case (3 l l' ls)
  then have "rests (alternatives (l' # ls)) s = {s'. \<exists>k \<in> set (l' # ls). s = k @ s'}" by simp
  then show ?case by (auto simp add: rests_Alt rests_Lit)
qed

lemma rests_trailing_slash: "(\<Union>s' \<in> A. rests (Opt (Lit ''/'')) s') \<noteq> {} \<longleftrightarrow> A \<noteq> {}"
  by (auto simp add: rests_Opt)

lemma rests_lang:
  "rests (Opt (Group ''lang'' (Seq (Plus_cls P) (Lit ''/'')))) s =
     insert s {s'. \<exists>lang. lang \<noteq> [] \<and> list_all P lang \<and> s = lang @ ''/'' @ s'}"
  by (auto simp add: rests_Opt rests_Group rests_Seq rests_Plus_cls rests_Lit)

lemma alternatives_prefix:
  assumes "ls \<noteq> []"
  shows "(rests (alternatives ls) s \<noteq> {}) = (\<exists>pre \<in> set ls. startswith s pre)"
  unfolding rests_alternatives [OF assms] startswith_iff by blast

lemma alternatives_then_slash:
  assumes "ls \<noteq> []"
  shows "(rests (Seq (alternatives ls) (Opt (Lit ''/''))) s \<noteq> {}) =
     (\<exists>pre \<in> set ls. startswith s pre)"
  unfolding rests_Seq rests_trailing_slash by (rule alternatives_prefix [OF assms])

lemma lang_then:
  "(rests (Seq (Opt (Group ''lang'' (Seq (Plus_cls P) (Lit ''/'')))) r) s \<noteq> {}) =
     (rests r s \<noteq> {}
      \<or> (\<exists>lang rest. lang \<noteq> [] \<and> list_all P lang \<and> s = lang @ ''/'' @ rest
            \<and> rests r rest \<noteq> {}))"
  unfolding rests_Seq [of "Opt _"] rests_lang by blast

lemma startswith_after_lang:
  "(\<exists>rest. s = lang @ sep @ rest \<and> startswith rest pre) = startswith s (lang @ sep @ pre)"
  unfolding startswith_iff by (simp only: append_assoc) blast

text \<open>
  Each of the three path patterns asks for a prefix of the path only: one of six literal
  prefixes for the static assets; for the other two an optional language segment, of
  word characters and dashes, then one of four literals, or \<open>learn\<close>. The word
  characters are those of ASCII: on an ASCII string this is what \<^verbatim>\<open>re.match\<close> decides.
\<close>

lemma static_paths_prefix:
  "(re_match STATIC_PATHS_RE url_path \<noteq> None) =
     (\<exists>pre \<in> set [''app'', ''static'', ''downloadcontent'', ''content/storage'',
                    ''content/static'', ''content/zipcontent'']. startswith url_path pre)"
  unfolding re_match_rests STATIC_PATHS_RE_def
  by (rule alternatives_then_slash) (rule list.distinct(2))

lemma system_paths_prefix:
  "(re_match SYSTEM_PATHS_RE url_path \<noteq> None) =
     ((\<exists>pre \<in> set [''user'', ''logout'', ''redirectuser'', ''learn/app''].
         startswith url_path pre)
      \<or> (\<exists>lang. lang \<noteq> [] \<and> list_all word_or_dash lang
            \<and> (\<exists>pre \<in> set [''user'', ''logout'', ''redirectuser'', ''learn/app''].
                  startswith url_path (lang @ ''/'' @ pre))))"
proof -
  have alts: "(rests (Seq (alternatives [''user'', ''logout'', ''redirectuser'', ''learn/app''])
          (Opt (Lit ''/''))) s \<noteq> {}) =
      (\<exists>pre \<in> set [''user'', ''logout'', ''redirectuser'', ''learn/app'']. startswith s pre)" for s
    by (rule alternatives_then_slash) (rule list.distinct(2))
  have "(\<exists>rest. url_path = lang @ ''/'' @ rest \<and> (\<exists>pre \<in> set ls. startswith rest pre)) =
      (\<exists>pre \<in> set ls. startswith url_path (lang @ ''/'' @ pre))" for lang ls
    using startswith_after_lang [of url_path lang "''/''"] by blast
  then show ?thesis
    unfolding re_match_rests SYSTEM_PATHS_RE_def lang_then alts by blast
qed

lemma content_paths_prefix:
  "(re_match CONTENT_PATHS_RE url_path \<noteq> None) =
     (startswith url_path ''learn''
      \<or> (\<exists>lang. lang \<noteq> [] \<and> list_all word_or_dash lang
            \<and> startswith url_path (lang @ ''/'' @ ''learn'')))"
proof -
  have learn: "(rests (Seq (Lit ''learn'') (Opt (Lit ''/''))) s \<noteq> {}) = startswith s ''learn''" for s
    using alternatives_then_slash [of "[''learn'']" s] by simp
  have "(\<exists>rest. url_path = lang @ ''/'' @ rest \<and> startswith rest ''learn'') =
      startswith url_path (lang @ ''/'' @ ''learn'')" for lang
    by (rule startswith_after_lang)
  then show ?thesis
    unfolding re_match_rests CONTENT_PATHS_RE_def lang_then learn by blast
qed

lemma unscoped_fragment_prefix:
  "(re_match UNSCOPED_FRAGMENT_RE fragment_v \<noteq> None) =
     (startswith fragment_v ''content-unavailable'' \<or> startswith fragment_v ''search'')"
proof -
  have "(rests (alternatives [''content-unavailable'', ''search'']) fragment_v \<noteq> {}) =
      (\<exists>pre \<in> set [''content-unavailable'', ''search'']. startswith fragment_v pre)"
    by (rule alternatives_prefix) (rule list.distinct(2))
  then show ?thesis
    unfolding re_match_rests UNSCOPED_FRAGMENT_RE_def by simp
qed

subsection \<open>The content node of a learn fragment\<close>

lemma star_rests_longest: "\<exists>shorter. star_rests P s = dropWhile P s # shorter"
proof (induction s)
  case Nil
  show ?case by simp
next
  case (Cons c cs)
  then obtain shorter where "star_rests P cs = dropWhile P cs # shorter" by blast
  then show ?case by (cases "P c") simp_all
qed

lemma plus_cls_longest:
  assumes "n \<noteq> []" "list_all P n" "rest = [] \<or> \<not> P (hd rest)"
  shows "\<exists>shorter. run (Plus_cls P) (n @ rest) g = (rest, g) # shorter"
proof -
  obtain a as where n: "n = a # as" using assms(1) by (cases n) auto
  with assms(2) have a: "P a" and as: "\<And>x. x \<in> set as \<Longrightarrow> P x"
    by (simp_all add: list_all_iff)
  have "dropWhile P rest = rest" using assms(3) by (cases rest) auto
  with as have longest: "dropWhile P (as @ rest) = rest" by simp
  obtain shorter where "star_rests P (as @ rest) = dropWhile P (as @ rest) # shorter"
    using star_rests_longest by blast
  with longest have "star_rests P (as @ rest) = rest # shorter" by simp
  with a n show ?thesis by simp
qed

text \<open>
  A fragment \<open>topics/t/<id>\<close> or \<open>topics/c/<id>\<close> names the node \<open><id>\<close>: the word
  characters up to the first character that is none.
\<close>

lemma contentnode_id_of_typed_fragment:
  assumes "n \<noteq> []" "list_all word_char n" "rest = [] \<or> \<not> word_char (hd rest)"
    and "kind = CHR ''t'' \<or> kind = CHR ''c''"
  shows "contentnode_id_for_learn_fragment (''topics/'' @ kind # ''/'' @ n @ rest) = Some n"
proof -
  obtain shorter where
    "run (Plus_cls word_char) (n @ rest) [] = (rest, []) # shorter"
    using plus_cls_longest [OF assms(1-3)] by blast
  with assms(4) show ?thesis
    by (auto simp add: contentnode_id_for_learn_fragment_def NODE_ID_RE_def re_match_def
        match_group_def)
qed

section \<open>Properties of the scope of a context\<close>

lemma is_url_for_kolibri_app_splits:
  "is_url_for_kolibri_app e url = Inr True \<Longrightarrow> \<exists>url_tuple. urlsplit e url = Inr url_tuple"
  by (cases "urlsplit e url") (auto simp add: is_url_for_kolibri_app_def split: if_splits)

lemma is_url_in_scope_splits:
  "is_url_in_scope e ctx url = Inr True \<Longrightarrow> \<exists>url_tuple. urlsplit e url = Inr url_tuple"
proof (cases ctx)
  case KolibriContext
  assume "is_url_in_scope e ctx url = Inr True"
  with KolibriContext show ?thesis by (simp add: is_url_for_kolibri_app_splits)
next
  case (KolibriChannelContext channel_id)
  assume "is_url_in_scope e ctx url = Inr True"
  with KolibriChannelContext show ?thesis
    by (cases "urlsplit e url") (auto split: sum.splits if_splits)
qed

text \<open>
  C10. \<open>should_open_url\<close> returns True iff the URL is the default URL of the context, or
  \<^verbatim>\<open>urlsplit\<close> gives it one of the schemes \<open>kolibri\<close>, \<open>x-kolibri-app\<close>, \<open>about\<close>, \<open>blob\<close>,
  or \<open>is_url_in_scope\<close> returns True for it. So every URL with the scheme \<open>about\<close> or
  \<open>blob\<close> is to be opened, whatever its scope is.
\<close>

theorem should_open_url_iff:
  "(should_open_url e ctx url = Inr True) =
     (url = default_url ctx
      \<or> (\<exists>url_tuple. urlsplit e url = Inr url_tuple
            \<and> scheme url_tuple \<in> {KOLIBRI_URI_SCHEME, APP_URI_SCHEME, ''about'', ''blob''})
      \<or> is_url_in_scope e ctx url = Inr True)
   \<and> (urlsplit e url = Inr url_tuple \<and> scheme url_tuple \<in> {''about'', ''blob''} \<longrightarrow>
        should_open_url e ctx url = Inr True)"
proof (cases "urlsplit e url")
  case (Inl err)
  have "is_url_in_scope e ctx url \<noteq> Inr True"
    using is_url_in_scope_splits [of e ctx url] Inl by auto
  with Inl show ?thesis by (simp add: should_open_url_def)
next
  case (Inr t)
  then show ?thesis by (auto simp add: should_open_url_def)
qed

lemma sample_scope:
  "is_url_in_scope sample_env (KolibriChannelContext ''c0ffee'') ''about:blank'' = Inr False"
  "is_url_in_scope sample_env (KolibriChannelContext ''c0ffee'') ''https://example.org/'' = Inr False"
  "is_url_in_scope sample_env (KolibriChannelContext ''c0ffee'') ''http://localhost:8080/en/user/'' =
     Inr True"
  by code_simp+

lemma sample_should_open:
  "should_open_url sample_env (KolibriChannelContext ''c0ffee'') ''about:blank'' = Inr True"
  "should_open_url sample_env (KolibriChannelContext ''c0ffee'') ''https://example.org/'' = Inr False"
  by code_simp+

lemma sample_urlsplit_about:
  "urlsplit sample_env ''about:blank'' =
     Inr \<lparr>scheme = ''about'', netloc = [], path = ''blank'', query = [], fragment = []\<rparr>"
  by code_simp

theorem should_open_url_iff_witness:
  "should_open_url sample_env (KolibriChannelContext ''c0ffee'') ''about:blank'' = Inr True
   \<and> is_url_in_scope sample_env (KolibriChannelContext ''c0ffee'') ''about:blank'' = Inr False
   \<and> should_open_url sample_env (KolibriChannelContext ''c0ffee'')
        ''x-kolibri-app:/learn/#/topics/t/c0ffee'' = Inr True
   \<and> should_open_url sample_env (KolibriChannelContext ''c0ffee'')
        ''http://localhost:8080/en/user/'' = Inr True
   \<and> should_open_url sample_env (KolibriChannelContext ''c0ffee'') ''https://example.org/'' =
        Inr False"
  using should_open_url_iff [of sample_env "KolibriChannelContext ''c0ffee''" "''about:blank''"
      "\<lparr>scheme = ''about'', netloc = [], path = ''blank'', query = [], fragment = []\<rparr>"]
    should_open_url_iff [of sample_env "KolibriChannelContext ''c0ffee''"
      "''x-kolibri-app:/learn/#/topics/t/c0ffee''"]
    should_open_url_iff [of sample_env "KolibriChannelContext ''c0ffee''"
      "''http://localhost:8080/en/user/''"]
  by (simp add: sample_scope sample_should_open sample_urlsplit_about kolibri_paths
      APP_URI_SCHEME_def del: is_url_in_scope.simps)

subsection \<open>The scope of a channel\<close>

lemma is_learn_fragment_in_channel_iff:
  "is_learn_fragment_in_channel e channel_id fragment_v =
     (re_match UNSCOPED_FRAGMENT_RE (lstrip CHR ''/'' fragment_v) \<noteq> None
      \<or> node_in_channel e channel_id fragment_v)"
proof (cases "contentnode_id_for_learn_fragment (lstrip CHR ''/'' fragment_v)")
  case None
  then show ?thesis
    by (simp add: is_learn_fragment_in_channel_def node_in_channel_def Let_def)
next
  case (Some contentnode_id)
  show ?thesis
  proof (cases "contentnode_id = channel_id")
    case True
    with Some show ?thesis
      by (simp add: is_learn_fragment_in_channel_def node_in_channel_def resolved_channel_def
          Let_def)
  next
    case False
    with Some show ?thesis
      by (cases "kolibri_api_get e (''/api/content/contentnode/'' @ contentnode_id)")
        (auto simp add: is_learn_fragment_in_channel_def node_in_channel_def
          resolved_channel_def Let_def split: option.splits json.splits)
  qed
qed

text \<open>
  C1, as the specification states it, fails on the code. The search page of the learn
  application, \<^verbatim>\<open>http://localhost:8080/en/learn/#/search?keywords=math\<close>, is addressed to
  the Kolibri app and is in the scope of the channel \<open>c0ffee\<close>, although its path matches
  the learn pattern only and its fragment names no content node at all.
\<close>

theorem channel_scope_counterexample:
  "is_url_for_kolibri_app sample_env ''http://localhost:8080/en/learn/#/search?keywords=math'' =
     Inr True
   \<and> urlsplit sample_env ''http://localhost:8080/en/learn/#/search?keywords=math'' =
     Inr \<lparr>scheme = ''http'', netloc = ''localhost:8080'', path = ''/en/learn/'', query = [],
          fragment = ''/search?keywords=math''\<rparr>
   \<and> is_url_in_scope sample_env (KolibriChannelContext ''c0ffee'')
       ''http://localhost:8080/en/learn/#/search?keywords=math'' = Inr True
   \<and> re_match STATIC_PATHS_RE ''en/learn/'' = None
   \<and> re_match SYSTEM_PATHS_RE ''en/learn/'' = None
   \<and> re_match CONTENT_PATHS_RE ''en/learn/'' \<noteq> None
   \<and> contentnode_id_for_learn_fragment ''search?keywords=math'' = None
   \<and> \<not> spec_in_scope sample_env ''c0ffee''
         \<lparr>scheme = ''http'', netloc = ''localhost:8080'', path = ''/en/learn/'', query = [],
          fragment = ''/search?keywords=math''\<rparr>
   \<and> is_ascii ''/en/learn/'' \<and> is_ascii ''/search?keywords=math''"
  by code_simp

text \<open>
  C1, amended. For every channel id and every URL addressed to the Kolibri app whose
  path and fragment are ASCII, \<open>is_url_in_scope\<close> of a KolibriChannelContext returns True
  iff the path of the URL, leading slashes dropped, matches the pattern of static assets,
  or the pattern of the system and account pages, or it matches the pattern of the learn
  pages and the fragment, leading slashes dropped, either starts with
  \<open>content-unavailable\<close> or \<open>search\<close> or names a content node that belongs to the
  configured channel. A node whose id is the channel id is in the channel whatever the
  content API answers; any other node is in the channel iff the answer of the content API
  is a dict whose \<open>channel_id\<close> is the configured channel. So a URL whose path, leading
  slashes dropped, matches the learn pattern and neither the static nor the system
  pattern, and whose fragment, leading slashes dropped, names a content node and starts
  with neither \<open>content-unavailable\<close> nor \<open>search\<close>, is in scope iff the channel the node
  resolves to is the configured channel. A path that matches the system pattern as well,
  such as \<open>en/learn/app/\<close>, is in scope whatever node its fragment names. What the four
  patterns ask of a path or a fragment is a prefix, as the lemmas \<open>static_paths_prefix\<close>,
  \<open>system_paths_prefix\<close>, \<open>content_paths_prefix\<close> and \<open>unscoped_fragment_prefix\<close> spell out.
\<close>

theorem channel_scope_amended:
  fixes e :: env and url_tuple :: SplitResult
  defines "url_path \<equiv> lstrip CHR ''/'' (path url_tuple)"
  defines "fragment1 \<equiv> lstrip CHR ''/'' (fragment url_tuple)"
  assumes "is_url_for_kolibri_app e url = Inr True" and "urlsplit e url = Inr url_tuple"
    and "is_ascii (path url_tuple)" and "is_ascii (fragment url_tuple)"
  shows
   "is_url_in_scope e (KolibriChannelContext channel_id) url =
      Inr (re_match STATIC_PATHS_RE url_path \<noteq> None
           \<or> re_match SYSTEM_PATHS_RE url_path \<noteq> None
           \<or> (re_match CONTENT_PATHS_RE url_path \<noteq> None
               \<and> (re_match UNSCOPED_FRAGMENT_RE fragment1 \<noteq> None
                    \<or> node_in_channel e channel_id (fragment url_tuple))))
    \<and> is_url_in_scope e (KolibriChannelContext channel_id) url =
      Inr (spec_in_scope e channel_id url_tuple
           \<or> (re_match CONTENT_PATHS_RE url_path \<noteq> None
               \<and> re_match UNSCOPED_FRAGMENT_RE fragment1 \<noteq> None))
    \<and> (re_match STATIC_PATHS_RE url_path = None \<and> re_match SYSTEM_PATHS_RE url_path = None
        \<and> re_match CONTENT_PATHS_RE url_path \<noteq> None
        \<and> re_match UNSCOPED_FRAGMENT_RE fragment1 = None
        \<and> contentnode_id_for_learn_fragment fragment1 = Some contentnode_id \<longrightarrow>
        is_url_in_scope e (KolibriChannelContext channel_id) url =
          Inr (resolved_channel e channel_id contentnode_id = Some channel_id))
    \<and> resolved_channel (e\<lparr>kolibri_api_get := answer\<rparr>) channel_id channel_id = Some channel_id
    \<and> (contentnode_id \<noteq> channel_id \<longrightarrow>
        (resolved_channel e channel_id contentnode_id = Some channel_id) =
        (\<exists>response. kolibri_api_get e (''/api/content/contentnode/'' @ contentnode_id) =
             JDict response \<and> map_of response ''channel_id'' = Some (JStr channel_id)))"
proof -
  have scope: "is_url_in_scope e (KolibriChannelContext channel_id) url =
      Inr (re_match STATIC_PATHS_RE url_path \<noteq> None
           \<or> re_match SYSTEM_PATHS_RE url_path \<noteq> None
           \<or> (re_match CONTENT_PATHS_RE url_path \<noteq> None
               \<and> (re_match UNSCOPED_FRAGMENT_RE fragment1 \<noteq> None
                    \<or> node_in_channel e channel_id (fragment url_tuple))))"
    using assms(3,4)
    by (simp add: is_learn_fragment_in_channel_iff Let_def url_path_def fragment1_def)
  have spec: "(re_match STATIC_PATHS_RE url_path \<noteq> None
           \<or> re_match SYSTEM_PATHS_RE url_path \<noteq> None
           \<or> (re_match CONTENT_PATHS_RE url_path \<noteq> None
               \<and> (re_match UNSCOPED_FRAGMENT_RE fragment1 \<noteq> None
                    \<or> node_in_channel e channel_id (fragment url_tuple)))) =
      (spec_in_scope e channel_id url_tuple
           \<or> (re_match CONTENT_PATHS_RE url_path \<noteq> None
               \<and> re_match UNSCOPED_FRAGMENT_RE fragment1 \<noteq> None))"
    unfolding spec_in_scope_def Let_def url_path_def fragment1_def by blast
  have node: "contentnode_id_for_learn_fragment fragment1 = Some contentnode_id \<Longrightarrow>
      node_in_channel e channel_id (fragment url_tuple) =
        (resolved_channel e channel_id contentnode_id = Some channel_id)"
    by (simp add: node_in_channel_def fragment1_def)
  have own: "resolved_channel (e\<lparr>kolibri_api_get := answer\<rparr>) channel_id channel_id =
      Some channel_id"
    by (simp add: resolved_channel_def)
  have other: "contentnode_id \<noteq> channel_id \<longrightarrow>
        (resolved_channel e channel_id contentnode_id = Some channel_id) =
        (\<exists>response. kolibri_api_get e (''/api/content/contentnode/'' @ contentnode_id) =
             JDict response \<and> map_of response ''channel_id'' = Some (JStr channel_id))"
    by (auto simp add: resolved_channel_def split: json.splits option.splits)
  have scope_spec: "is_url_in_scope e (KolibriChannelContext channel_id) url =
      Inr (spec_in_scope e channel_id url_tuple
           \<or> (re_match CONTENT_PATHS_RE url_path \<noteq> None
               \<and> re_match UNSCOPED_FRAGMENT_RE fragment1 \<noteq> None))"
    using scope spec by simp
  have content: "re_match STATIC_PATHS_RE url_path = None \<and> re_match SYSTEM_PATHS_RE url_path = None
        \<and> re_match CONTENT_PATHS_RE url_path \<noteq> None
        \<and> re_match UNSCOPED_FRAGMENT_RE fragment1 = None
        \<and> contentnode_id_for_learn_fragment fragment1 = Some contentnode_id \<longrightarrow>
        is_url_in_scope e (KolibriChannelContext channel_id) url =
          Inr (resolved_channel e channel_id contentnode_id = Some channel_id)"
    using scope node by auto
  show ?thesis
    using scope scope_spec content own other by blast
qed

lemma sample_content_url:
  "is_url_for_kolibri_app sample_env ''http://localhost:8080/en/learn/#/topics/c/aaa111'' = Inr True"
  "urlsplit sample_env ''http://localhost:8080/en/learn/#/topics/c/aaa111'' =
     Inr \<lparr>scheme = ''http'', netloc = ''localhost:8080'', path = ''/en/learn/'', query = [],
          fragment = ''/topics/c/aaa111''\<rparr>"
  "is_ascii (path \<lparr>scheme = ''http'', netloc = ''localhost:8080'', path = ''/en/learn/'',
          query = [], fragment = ''/topics/c/aaa111''\<rparr>)"
  "is_ascii (fragment \<lparr>scheme = ''http'', netloc = ''localhost:8080'', path = ''/en/learn/'',
          query = [], fragment = ''/topics/c/aaa111''\<rparr>)"
  "is_url_in_scope sample_env (KolibriChannelContext ''c0ffee'')
     ''http://localhost:8080/en/learn/#/topics/c/aaa111'' = Inr True"
  "is_url_in_scope sample_env (KolibriChannelContext ''0ddba11'')
     ''http://localhost:8080/en/learn/#/topics/c/aaa111'' = Inr False"
  "contentnode_id_for_learn_fragment ''topics/c/aaa111'' = Some ''aaa111''"
  "resolved_channel sample_env ''c0ffee'' ''aaa111'' = Some ''c0ffee''"
  "resolved_channel sample_env ''0ddba11'' ''aaa111'' = Some ''c0ffee''"
  by code_simp+

lemma sample_content_url_patterns:
  "re_match STATIC_PATHS_RE ''en/learn/'' = None"
  "re_match SYSTEM_PATHS_RE ''en/learn/'' = None"
  "re_match CONTENT_PATHS_RE ''en/learn/'' = Some [(''lang'', ''en/'')]"
  "re_match UNSCOPED_FRAGMENT_RE ''topics/c/aaa111'' = None"
  by code_simp+

lemma sample_learn_app_url:
  "is_url_for_kolibri_app sample_env ''http://localhost:8080/en/learn/app/#/topics/c/bbb222'' =
     Inr True"
  "urlsplit sample_env ''http://localhost:8080/en/learn/app/#/topics/c/bbb222'' =
     Inr \<lparr>scheme = ''http'', netloc = ''localhost:8080'', path = ''/en/learn/app/'', query = [],
          fragment = ''/topics/c/bbb222''\<rparr>"
  "is_ascii (path \<lparr>scheme = ''http'', netloc = ''localhost:8080'', path = ''/en/learn/app/'',
          query = [], fragment = ''/topics/c/bbb222''\<rparr>)"
  "is_ascii (fragment \<lparr>scheme = ''http'', netloc = ''localhost:8080'', path = ''/en/learn/app/'',
          query = [], fragment = ''/topics/c/bbb222''\<rparr>)"
  "is_url_in_scope sample_env (KolibriChannelContext ''c0ffee'')
     ''http://localhost:8080/en/learn/app/#/topics/c/bbb222'' = Inr True"
  "re_match SYSTEM_PATHS_RE ''en/learn/app/'' = Some [(''lang'', ''en/'')]"
  "re_match CONTENT_PATHS_RE ''en/learn/app/'' = Some [(''lang'', ''en/'')]"
  "contentnode_id_for_learn_fragment ''topics/c/bbb222'' = Some ''bbb222''"
  "resolved_channel sample_env ''c0ffee'' ''bbb222'' = Some ''0ddba11''"
  by code_simp+

theorem channel_scope_amended_witness:
  "is_url_for_kolibri_app sample_env ''http://localhost:8080/en/learn/#/topics/c/aaa111'' = Inr True
   \<and> is_ascii ''/en/learn/'' \<and> is_ascii ''/topics/c/aaa111''
   \<and> is_url_in_scope sample_env (KolibriChannelContext ''c0ffee'')
       ''http://localhost:8080/en/learn/#/topics/c/aaa111'' = Inr True
   \<and> resolved_channel sample_env ''c0ffee'' ''aaa111'' = Some ''c0ffee''
   \<and> is_url_in_scope sample_env (KolibriChannelContext ''0ddba11'')
       ''http://localhost:8080/en/learn/#/topics/c/aaa111'' = Inr False
   \<and> resolved_channel sample_env ''0ddba11'' ''aaa111'' = Some ''c0ffee''
   \<and> is_url_for_kolibri_app sample_env
       ''http://localhost:8080/en/learn/app/#/topics/c/bbb222'' = Inr True
   \<and> re_match SYSTEM_PATHS_RE ''en/learn/app/'' \<noteq> None
   \<and> is_url_in_scope sample_env (KolibriChannelContext ''c0ffee'')
       ''http://localhost:8080/en/learn/app/#/topics/c/bbb222'' = Inr True
   \<and> resolved_channel sample_env ''c0ffee'' ''bbb222'' = Some ''0ddba11''"
  using channel_scope_amended [OF sample_content_url(1-4),
      where channel_id = "''c0ffee''" and contentnode_id = "''aaa111''"]
    channel_scope_amended [OF sample_content_url(1-4),
      where channel_id = "''0ddba11''" and contentnode_id = "''aaa111''"]
    channel_scope_amended [OF sample_learn_app_url(1-4),
      where channel_id = "''c0ffee''" and contentnode_id = "''bbb222''"]
    sample_content_url(3,4)
  by (simp add: sample_content_url sample_content_url_patterns sample_learn_app_url lstrip_def
      del: is_url_in_scope.simps)

end
